theory Spec2Isabelle
  imports Main
begin

section \<open>Data model of main.go\<close>

text \<open>
  The server value \<open>UnRustleLogs\<close> owns two in-memory state stores (Go maps guarded by
  one reader/writer mutex each), the configuration and the database handle. Every method
  of the source that touches a map holds that map's mutex from its first to its last
  statement, so a method body is one atomic step and is written here as a function from
  the server value to the updated server value. Calls to the logger are left out: they
  neither read nor write anything the methods return or store.
\<close>

datatype error =
    ErrNoCookie
  | ValidationError
  | NilPointerDereference

text \<open>\<open>type state struct { service string; verifier string; time time.Time }\<close>\<close>

record state =
  service :: string
  verifier :: string
  time :: nat

definition TITLE :: string where
  "TITLE = ''UnRustleLogs''"

definition TWITCHSERVICE :: string where
  "TWITCHSERVICE = ''twtch''"

definition DESTINYGGSERVICE :: string where
  "DESTINYGGSERVICE = ''destinygg''"

text \<open>
  \<open>jwtClaims\<close>: the five custom fields. The embedded \<open>jwt.StandardClaims\<close> are read
  only by the JWT library while it validates a token, never by main.go.
\<close>

record jwtClaims =
  ID :: string
  Name :: string
  Email :: string
  DisplayName :: string
  Service :: string

text \<open>
  The configuration type is declared outside main.go; main.go reads
  \<open>config.Twitch.Cookie\<close>, \<open>config.Destinygg.Cookie\<close>, \<open>config.Server.JWTSecret\<close>
  and \<open>config.Server.Address\<close>.
\<close>

record ProviderConfig =
  Cookie :: string

record ServerConfig =
  JWTSecret :: string
  Address :: string

record Config =
  Twitch :: ProviderConfig
  Destinygg :: ProviderConfig
  Server :: ServerConfig

text \<open>
  Modelled from the spec: the preference store behind \<open>ur.db\<close> (\<open>AddUser\<close>,
  \<open>DeleteUser\<close>, \<open>UserInDatabase\<close> are not in main.go). The spec describes it as
  the entity \<open>{userKey, service}\<close> where "existence of a row means exclude this user's
  logs", with the three calls \<open>AddUser(key, service)\<close>, \<open>DeleteUser(key, service)\<close>
  and \<open>Exists(key, service) -> bool\<close>; \<open>delete\<close> is idempotent and \<open>undelete\<close> after
  \<open>delete\<close> restores the absent state. The store is therefore the set of (name, service)
  keys that have a row.
\<close>

type_synonym DB = "(string \<times> string) set"

record UnRustleLogs =
  config :: Config
  db :: DB
  dggStates :: "string \<rightharpoonup> state"
  twitchStates :: "string \<rightharpoonup> unit"

text \<open>
  \<open>NewUnRustleLogs\<close> allocates the two empty maps; \<open>LoadConfig\<close> and \<open>NewDatabase\<close>
  (outside main.go) fill in the configuration and the database before the router is
  built, so both are arguments here.
\<close>

definition NewUnRustleLogs :: "Config \<Rightarrow> DB \<Rightarrow> UnRustleLogs" where
  "NewUnRustleLogs cfg d =
     \<lparr>config = cfg, db = d, dggStates = Map.empty, twitchStates = Map.empty\<rparr>"


section \<open>The state stores\<close>

text \<open>
  \<open>addDggState\<close> and \<open>addTwitchState\<close> end with
  \<open>go func() { time.Sleep(time.Minute * 5); ur.delete...State(s) }()\<close>.
  The started goroutine is returned next to the updated server value: how long it
  sleeps (in seconds) and the call it makes when it wakes.
\<close>

datatype cleanup =
    DeleteDggState string
  | DeleteTwitchState string

record goroutine =
  sleep :: nat
  call :: cleanup

definition Minute :: nat where
  "Minute = 60"

text \<open>
  \<open>time.Now().UTC()\<close> is the argument \<open>now\<close>.
\<close>

definition addDggState :: "UnRustleLogs \<Rightarrow> string \<Rightarrow> string \<Rightarrow> nat \<Rightarrow> UnRustleLogs \<times> goroutine" where
  "addDggState ur s verifier' now =
     (ur\<lparr>dggStates := (dggStates ur)
         (s \<mapsto> \<lparr>service = TWITCHSERVICE, verifier = verifier', time = now\<rparr>)\<rparr>,
      \<lparr>sleep = Minute * 5, call = DeleteDggState s\<rparr>)"

text \<open>
  \<open>s, ok := ur.dggStates[state]; return s.verifier, ok\<close>. The map holds pointers:
  for a missing key \<open>s\<close> is the nil pointer (\<open>None\<close> below) and \<open>ok\<close> is false; the
  field read \<open>s.verifier\<close> of a nil pointer is a run-time panic.
\<close>

definition hasDggState :: "UnRustleLogs \<Rightarrow> string \<Rightarrow> error + (string \<times> bool)" where
  "hasDggState ur st =
     (let (s, ok) = (case dggStates ur st of
                       None \<Rightarrow> (None, False)
                     | Some p \<Rightarrow> (Some p, True))
      in case s of
           None \<Rightarrow> Inl NilPointerDereference
         | Some p \<Rightarrow> Inr (verifier p, ok))"

definition deleteDggState :: "UnRustleLogs \<Rightarrow> string \<Rightarrow> UnRustleLogs" where
  "deleteDggState ur st =
     (let ok = (dggStates ur st \<noteq> None)
      in if ok then ur\<lparr>dggStates := (dggStates ur)(st := None)\<rparr> else ur)"

definition addTwitchState :: "UnRustleLogs \<Rightarrow> string \<Rightarrow> UnRustleLogs \<times> goroutine" where
  "addTwitchState ur s =
     (ur\<lparr>twitchStates := (twitchStates ur)(s \<mapsto> ())\<rparr>,
      \<lparr>sleep = Minute * 5, call = DeleteTwitchState s\<rparr>)"

definition hasTwitchState :: "UnRustleLogs \<Rightarrow> string \<Rightarrow> bool" where
  "hasTwitchState ur st =
     (let ok = (twitchStates ur st \<noteq> None) in ok)"

definition deleteTwitchState :: "UnRustleLogs \<Rightarrow> string \<Rightarrow> UnRustleLogs" where
  "deleteTwitchState ur st =
     (let ok = (twitchStates ur st \<noteq> None)
      in if ok then ur\<lparr>twitchStates := (twitchStates ur)(st := None)\<rparr> else ur)"


section \<open>The HTTP layer\<close>

subsection \<open>What main.go uses of gin, net/http and jwt-go\<close>

text \<open>
  A \<open>*gin.Context\<close> carries the request (its cookies and query parameters), the
  per-request key/value store \<open>Keys\<close> and the response under construction. The only
  value main.go ever stores under a key is a \<open>*jwtClaims\<close>, so the type assertion
  \<open>user.(*jwtClaims)\<close> of the handlers cannot fail and \<open>Keys\<close> maps to claims.
\<close>

record PayloadTwitch =
  Name :: string
  Email :: string
  LoggedIn :: bool
  IsDeleting :: bool

record PayloadDestinygg =
  Name :: string
  LoggedIn :: bool
  IsDeleting :: bool

record Payload =
  Title :: string
  Twitch :: PayloadTwitch
  Destinygg :: PayloadDestinygg
  DeleteStatus :: string

datatype body =
    JSONBody "(string \<times> string) list"
  | HTMLBody string Payload
  | RedirectTo string

record Response =
  code :: nat
  body :: body

record Context =
  Cookies :: "string \<rightharpoonup> string"
  QueryParams :: "string \<rightharpoonup> string"
  Keys :: "string \<rightharpoonup> jwtClaims"
  Written :: "Response list"
  ClearedCookies :: "string list"

definition StatusOK :: nat where
  "StatusOK = 200"

definition StatusFound :: nat where
  "StatusFound = 302"

definition StatusTemporaryRedirect :: nat where
  "StatusTemporaryRedirect = 307"

definition StatusUnauthorized :: nat where
  "StatusUnauthorized = 401"

text \<open>\<open>c.Cookie(name)\<close>: the named request cookie, or \<open>http.ErrNoCookie\<close>.\<close>

definition c_Cookie :: "Context \<Rightarrow> string \<Rightarrow> error + string" where
  "c_Cookie c name' =
     (case Cookies c name' of None \<Rightarrow> Inl ErrNoCookie | Some v \<Rightarrow> Inr v)"

text \<open>\<open>c.Query(key)\<close>: the query parameter, or the empty string when there is none.\<close>

definition c_Query :: "Context \<Rightarrow> string \<Rightarrow> string" where
  "c_Query c key = (case QueryParams c key of None \<Rightarrow> [] | Some v \<Rightarrow> v)"

definition c_Get :: "Context \<Rightarrow> string \<Rightarrow> jwtClaims option" where
  "c_Get c key = Keys c key"

definition c_Set :: "Context \<Rightarrow> string \<Rightarrow> jwtClaims \<Rightarrow> Context" where
  "c_Set c key v = c\<lparr>Keys := (Keys c)(key \<mapsto> v)\<rparr>"

definition c_JSON :: "Context \<Rightarrow> nat \<Rightarrow> (string \<times> string) list \<Rightarrow> Context" where
  "c_JSON c status obj = c\<lparr>Written := Written c @ [\<lparr>code = status, body = JSONBody obj\<rparr>]\<rparr>"

definition c_Redirect :: "Context \<Rightarrow> nat \<Rightarrow> string \<Rightarrow> Context" where
  "c_Redirect c status location =
     c\<lparr>Written := Written c @ [\<lparr>code = status, body = RedirectTo location\<rparr>]\<rparr>"

definition c_HTML :: "Context \<Rightarrow> nat \<Rightarrow> string \<Rightarrow> Payload \<Rightarrow> Context" where
  "c_HTML c status template payload =
     c\<lparr>Written := Written c @ [\<lparr>code = status, body = HTMLBody template payload\<rparr>]\<rparr>"

text \<open>
  \<open>jwt.ParseWithClaims(tokenString, &jwtClaims{}, keyFunc)\<close> belongs to the jwt-go
  library. It is a parameter of the model: a function from the token string and the
  secret the key function returns to either an error (malformed token, bad signature,
  expired claims) or a token with its claims and its \<open>Valid\<close> flag. The claims object
  handed to the library is a \<open>*jwtClaims\<close>, so the type assertion
  \<open>token.Claims.(*jwtClaims)\<close> always succeeds.
\<close>

record Token =
  Claims :: jwtClaims
  Valid :: bool

type_synonym Parser = "string \<Rightarrow> string \<Rightarrow> error + Token"

text \<open>
  Modelled from the spec: \<open>ur.deleteCookie(c, name)\<close> is not in main.go. The spec has
  the failing request flow "instruct the client to discard the offending cookie" and
  has logout clear "the provider's session cookie"; the model records the name the
  client is told to discard, which is the second argument of the call.
\<close>

definition deleteCookie :: "Context \<Rightarrow> string \<Rightarrow> Context" where
  "deleteCookie c name' = c\<lparr>ClearedCookies := ClearedCookies c @ [name']\<rparr>"

text \<open>
  Modelled from the spec: \<open>AddUser\<close>, \<open>DeleteUser\<close> and \<open>UserInDatabase\<close> (the
  spec's \<open>Exists\<close>) are not in main.go; they add, remove and test the row of a
  (name, service) key.
\<close>

definition AddUser :: "DB \<Rightarrow> string \<Rightarrow> string \<Rightarrow> DB" where
  "AddUser d name' service' = insert (name', service') d"

definition DeleteUser :: "DB \<Rightarrow> string \<Rightarrow> string \<Rightarrow> DB" where
  "DeleteUser d name' service' = d - {(name', service')}"

definition UserInDatabase :: "DB \<Rightarrow> string \<Rightarrow> string \<Rightarrow> bool" where
  "UserInDatabase d name' service' = ((name', service') \<in> d)"


subsection \<open>The handlers of main.go\<close>

text \<open>
  A handler \<open>func(*gin.Context)\<close> is a closure over the server pointer \<open>ur\<close>: it takes
  the context and the server value and returns both, updated.
\<close>

type_synonym HandlerFunc = "Context \<Rightarrow> UnRustleLogs \<Rightarrow> Context \<times> UnRustleLogs"

text \<open>
  \<open>getUser\<close> returns \<open>(nil, false)\<close> or \<open>(claims, true)\<close>, here \<open>None\<close> or
  \<open>Some claims\<close>, next to the context. Its first statement
  \<open>cookie, err := c.Cookie(cookie)\<close> overwrites the parameter \<open>cookie\<close> (the cookie's
  name) with the cookie's value; from there on \<open>cookie\<close> is the value, written
  \<open>cookie'\<close> below.
\<close>

definition getUser :: "Parser \<Rightarrow> UnRustleLogs \<Rightarrow> Context \<Rightarrow> string \<Rightarrow> jwtClaims option \<times> Context" where
  "getUser ParseWithClaims ur c cookie =
     (case c_Cookie c cookie of
        Inl err \<Rightarrow> (None, c)
      | Inr cookie' \<Rightarrow>
          (case ParseWithClaims cookie' (JWTSecret (Server (config ur))) of
             Inl err \<Rightarrow> (None, deleteCookie c cookie')
           | Inr token \<Rightarrow>
               if Valid token then (Some (Claims token), c) else (None, c)))"

definition emptyPayload :: Payload where
  "emptyPayload =
     \<lparr>Title = TITLE,
      Twitch = \<lparr>PayloadTwitch.Name = [], PayloadTwitch.Email = [],
                PayloadTwitch.LoggedIn = False, PayloadTwitch.IsDeleting = False\<rparr>,
      Destinygg = \<lparr>PayloadDestinygg.Name = [], PayloadDestinygg.LoggedIn = False,
                   PayloadDestinygg.IsDeleting = False\<rparr>,
      DeleteStatus = []\<rparr>"

definition indexHandler :: "Parser \<Rightarrow> HandlerFunc" where
  "indexHandler ParseWithClaims c ur =
     (let payload = emptyPayload;
          (twitch, c) = getUser ParseWithClaims ur c (Cookie (Config.Twitch (config ur)));
          payload = (case twitch of
                       Some twitch \<Rightarrow>
                         payload\<lparr>Payload.Twitch :=
                           (Payload.Twitch payload)
                           \<lparr>PayloadTwitch.Name := DisplayName twitch,
                            PayloadTwitch.Email := jwtClaims.Email twitch,
                            PayloadTwitch.LoggedIn := True,
                            PayloadTwitch.IsDeleting :=
                              UserInDatabase (db ur) (jwtClaims.Name twitch) TWITCHSERVICE\<rparr>\<rparr>
                     | None \<Rightarrow> payload);
          (dgg, c) = getUser ParseWithClaims ur c (Cookie (Config.Destinygg (config ur)));
          payload = (case dgg of
                       Some dgg \<Rightarrow>
                         payload\<lparr>Payload.Destinygg :=
                           (Payload.Destinygg payload)
                           \<lparr>PayloadDestinygg.Name := DisplayName dgg,
                            PayloadDestinygg.LoggedIn := True,
                            PayloadDestinygg.IsDeleting :=
                              UserInDatabase (db ur) (jwtClaims.Name dgg) DESTINYGGSERVICE\<rparr>\<rparr>
                     | None \<Rightarrow> payload);
          s = c_Query c ''delete'';
          payload = (if s \<noteq> [] then payload\<lparr>DeleteStatus := s\<rparr> else payload)
      in (c_HTML c StatusOK ''index.tmpl'' payload, ur))"

definition deleteHandler :: "string \<Rightarrow> HandlerFunc" where
  "deleteHandler service' c ur =
     (case c_Get c ''user'' of
        None \<Rightarrow> (c_JSON c StatusUnauthorized [(''message'', ''Unauthorized'')], ur)
      | Some user \<Rightarrow>
          (let ur = ur\<lparr>db := AddUser (db ur) (jwtClaims.Name user) service'\<rparr>
           in (c_Redirect c StatusFound ''/?delete=true'', ur)))"

definition undeleteHandler :: "string \<Rightarrow> HandlerFunc" where
  "undeleteHandler service' c ur =
     (case c_Get c ''user'' of
        None \<Rightarrow> (c_JSON c StatusUnauthorized [(''message'', ''Unauthorized'')], ur)
      | Some user \<Rightarrow>
          (let ur = ur\<lparr>db := DeleteUser (db ur) (jwtClaims.Name user) service'\<rparr>
           in (c_Redirect c StatusFound ''/?delete=false'', ur)))"

text \<open>
  In \<open>jwtMiddleware\<close> the returned closure starts with
  \<open>cookie, err := c.Cookie(cookie)\<close>: a new variable \<open>cookie\<close> (the cookie's value,
  \<open>cookie'\<close> below) that shadows the parameter \<open>cookie\<close> (the cookie's name) in the rest
  of the closure, in the call of \<open>deleteCookie\<close> and in the \<open>switch\<close>.
\<close>

definition jwtMiddleware :: "Parser \<Rightarrow> HandlerFunc \<Rightarrow> string \<Rightarrow> HandlerFunc" where
  "jwtMiddleware ParseWithClaims fn cookie c ur =
     (case c_Cookie c cookie of
        Inl err \<Rightarrow> (c_JSON c StatusUnauthorized [(''message'', ''Unauthorized'')], ur)
      | Inr cookie' \<Rightarrow>
          (case ParseWithClaims cookie' (JWTSecret (Server (config ur))) of
             Inl err \<Rightarrow>
               (let c = deleteCookie c cookie'
                in (c_JSON c StatusUnauthorized [(''message'', ''error'')], ur))
           | Inr token \<Rightarrow>
               if Valid token then
                 (let c = c_Set c ''user'' (Claims token) in fn c ur)
               else if cookie' = Cookie (Config.Twitch (config ur)) then
                 (c_Redirect c StatusTemporaryRedirect ''/twitch/logout'', ur)
               else if cookie' = Cookie (Config.Destinygg (config ur)) then
                 (c_Redirect c StatusTemporaryRedirect ''/dgg/logout'', ur)
               else
                 (c_Redirect c StatusTemporaryRedirect ''/'', ur)))"

text \<open>The four protected routes that \<open>main\<close> registers.\<close>

definition twitchDelete :: "Parser \<Rightarrow> HandlerFunc" where
  "twitchDelete P c ur =
     jwtMiddleware P (deleteHandler TWITCHSERVICE) (Cookie (Config.Twitch (config ur))) c ur"

definition twitchUndelete :: "Parser \<Rightarrow> HandlerFunc" where
  "twitchUndelete P c ur =
     jwtMiddleware P (undeleteHandler TWITCHSERVICE) (Cookie (Config.Twitch (config ur))) c ur"

definition dggDelete :: "Parser \<Rightarrow> HandlerFunc" where
  "dggDelete P c ur =
     jwtMiddleware P (deleteHandler DESTINYGGSERVICE) (Cookie (Config.Destinygg (config ur))) c ur"

definition dggUndelete :: "Parser \<Rightarrow> HandlerFunc" where
  "dggUndelete P c ur =
     jwtMiddleware P (undeleteHandler DESTINYGGSERVICE) (Cookie (Config.Destinygg (config ur))) c ur"


section \<open>Goroutines and the passage of time\<close>

text \<open>
  The cleanup goroutines run under the Go scheduler. Time is a logical clock in seconds.
  \<open>go\<close> records a started goroutine with the time at which its \<open>time.Sleep\<close> ends;
  \<open>elapse\<close> lets time pass and runs, in the order they were started, the calls of the
  goroutines whose sleep has ended. All sleeps have the same length, so that order is
  also the order of the wake-up times.
\<close>

record World =
  server :: UnRustleLogs
  clock :: nat
  sleeping :: "(nat \<times> cleanup) list"

definition go :: "World \<Rightarrow> goroutine \<Rightarrow> World" where
  "go w g = w\<lparr>sleeping := sleeping w @ [(clock w + sleep g, call g)]\<rparr>"

fun wake :: "UnRustleLogs \<Rightarrow> cleanup \<Rightarrow> UnRustleLogs" where
  "wake ur (DeleteDggState s) = deleteDggState ur s"
| "wake ur (DeleteTwitchState s) = deleteTwitchState ur s"

definition elapse :: "World \<Rightarrow> nat \<Rightarrow> World" where
  "elapse w d =
     (let now = clock w + d;
          due = filter (\<lambda>(t, g). t \<le> now) (sleeping w);
          rest = filter (\<lambda>(t, g). now < t) (sleeping w)
      in \<lparr>server = foldl wake (server w) (map snd due), clock = now, sleeping = rest\<rparr>)"

text \<open>A login request issues a nonce: the call of \<open>add...State\<close> at the current time.\<close>

definition issueTwitch :: "World \<Rightarrow> string \<Rightarrow> World" where
  "issueTwitch w s =
     (let (ur, g) = addTwitchState (server w) s in go (w\<lparr>server := ur\<rparr>) g)"

definition issueDgg :: "World \<Rightarrow> string \<Rightarrow> string \<Rightarrow> World" where
  "issueDgg w s verifier' =
     (let (ur, g) = addDggState (server w) s verifier' (clock w) in go (w\<lparr>server := ur\<rparr>) g)"

definition boot :: "UnRustleLogs \<Rightarrow> World" where
  "boot ur = \<lparr>server = ur, clock = 0, sleeping = []\<rparr>"


section \<open>Concurrent callbacks\<close>

text \<open>
  Modelled from the spec: the callback handlers are not in main.go. A callback that
  presents a nonce runs "the lookup-then-delete sequence": it calls \<open>has...State\<close> and,
  when the nonce was found, \<open>delete...State\<close>. In main.go each of the two methods locks
  the store's mutex on entry and unlocks it on return (\<open>has...State\<close> the read lock,
  \<open>delete...State\<close> the write lock), so each call is one atomic step of the caller and
  the lock is free between the two. A caller is at its lookup, at its delete (it has
  observed found=true), done with the value of found it observed, or has panicked.
\<close>

datatype caller =
    AtLookup
  | AtDelete
  | Done bool
  | Panicked

definition twitchCallback :: "string \<Rightarrow> UnRustleLogs \<Rightarrow> caller \<Rightarrow> UnRustleLogs \<times> caller" where
  "twitchCallback st ur pc =
     (case pc of
        AtLookup \<Rightarrow> if hasTwitchState ur st then (ur, AtDelete) else (ur, Done False)
      | AtDelete \<Rightarrow> (deleteTwitchState ur st, Done True)
      | Done found \<Rightarrow> (ur, Done found)
      | Panicked \<Rightarrow> (ur, Panicked))"

definition dggCallback :: "string \<Rightarrow> UnRustleLogs \<Rightarrow> caller \<Rightarrow> UnRustleLogs \<times> caller" where
  "dggCallback st ur pc =
     (case pc of
        AtLookup \<Rightarrow>
          (case hasDggState ur st of
             Inl err \<Rightarrow> (ur, Panicked)
           | Inr (verifier', ok) \<Rightarrow> if ok then (ur, AtDelete) else (ur, Done False))
      | AtDelete \<Rightarrow> (deleteDggState ur st, Done True)
      | Done found \<Rightarrow> (ur, Done found)
      | Panicked \<Rightarrow> (ur, Panicked))"

definition observedFound :: "caller \<Rightarrow> bool" where
  "observedFound pc = (case pc of AtDelete \<Rightarrow> True | Done found \<Rightarrow> found | _ \<Rightarrow> False)"

text \<open>
  A schedule names, step by step, the caller that takes its next atomic step. Any
  list of caller indices is a schedule: the mutex orders the steps but does not choose
  among the callers.
\<close>

fun interleave ::
  "(UnRustleLogs \<Rightarrow> caller \<Rightarrow> UnRustleLogs \<times> caller) \<Rightarrow> nat list \<Rightarrow>
   UnRustleLogs \<times> caller list \<Rightarrow> UnRustleLogs \<times> caller list" where
  "interleave stp [] (ur, cs) = (ur, cs)"
| "interleave stp (i # schedule) (ur, cs) =
     (if i < length cs then
        (let (ur', pc') = stp ur (cs ! i) in interleave stp schedule (ur', cs[i := pc']))
      else interleave stp schedule (ur, cs))"

text \<open>The schedule without concurrency: caller 0 runs both its steps, then caller 1, ...\<close>

definition serial :: "nat \<Rightarrow> nat \<Rightarrow> nat list" where
  "serial first n = concat (map (\<lambda>i. [i, i]) [first..<first + n])"

text \<open>The schedule in which all \<open>n\<close> callers look up before any of them deletes.\<close>

definition lookupsFirst :: "nat \<Rightarrow> nat list" where
  "lookupsFirst n = [0..<n] @ [0..<n]"

text \<open>The callers have all returned: none is still at its lookup or at its delete.\<close>

definition finished :: "caller list \<Rightarrow> bool" where
  "finished cs =
     list_all (\<lambda>pc. case pc of Done found \<Rightarrow> True | Panicked \<Rightarrow> True | _ \<Rightarrow> False) cs"

text \<open>
  What the proofs use of a callback's step function, for a predicate \<open>present\<close> on
  the server ("the nonce is in the store"): the lookup of a present nonce leads to the
  delete and changes nothing; the lookup of an absent nonce ends the callback without
  found=true and changes nothing; the delete ends the callback with found=true and
  leaves the nonce absent; a callback that has ended takes no further step.
\<close>

definition consumeSteps ::
  "(UnRustleLogs \<Rightarrow> bool) \<Rightarrow> (UnRustleLogs \<Rightarrow> caller \<Rightarrow> UnRustleLogs \<times> caller) \<Rightarrow> bool" where
  "consumeSteps present stp \<longleftrightarrow>
     (\<forall>ur. present ur \<longrightarrow> stp ur AtLookup = (ur, AtDelete)) \<and>
     (\<forall>ur. \<not> present ur \<longrightarrow>
        fst (stp ur AtLookup) = ur \<and> snd (stp ur AtLookup) \<in> {Done False, Panicked}) \<and>
     (\<forall>ur. \<not> present (fst (stp ur AtDelete)) \<and> snd (stp ur AtDelete) = Done True) \<and>
     (\<forall>ur found. stp ur (Done found) = (ur, Done found)) \<and>
     (\<forall>ur. stp ur Panicked = (ur, Panicked))"


section \<open>The service field of the dgg entries\<close>

text \<open>
  \<open>relabel f\<close> rewrites the \<open>service\<close> field of every dgg entry with \<open>f\<close> and leaves
  everything else as it is. An operation that commutes with \<open>relabel f\<close> for every \<open>f\<close>
  does not read the field.
\<close>

definition relabel :: "(string \<Rightarrow> string) \<Rightarrow> UnRustleLogs \<Rightarrow> UnRustleLogs" where
  "relabel f ur =
     ur\<lparr>dggStates := map_option (\<lambda>p. p\<lparr>service := f (service p)\<rparr>) \<circ> dggStates ur\<rparr>"


section \<open>Concrete configuration and requests\<close>

definition exampleConfig :: Config where
  "exampleConfig =
     \<lparr>Config.Twitch = \<lparr>Cookie = ''jwt_twitch''\<rparr>,
      Config.Destinygg = \<lparr>Cookie = ''jwt_dgg''\<rparr>,
      Config.Server = \<lparr>JWTSecret = ''secret'', Address = '':8080''\<rparr>\<rparr>"

definition bob :: jwtClaims where
  "bob = \<lparr>ID = ''u1'', jwtClaims.Name = ''bob'', jwtClaims.Email = ''bob@example.org'',
          DisplayName = ''Bob'', Service = ''twtch''\<rparr>"

text \<open>
  A parser that accepts exactly one token string under the secret \<open>''secret''\<close> and
  rejects every other string.
\<close>

definition exampleParser :: Parser where
  "exampleParser tokenString secret =
     (if tokenString = ''token-of-bob'' \<and> secret = ''secret''
      then Inr \<lparr>Claims = bob, Valid = True\<rparr>
      else Inl ValidationError)"

definition request :: "(string \<times> string) list \<Rightarrow> (string \<times> string) list \<Rightarrow> Context" where
  "request cookies query =
     \<lparr>Cookies = map_of cookies, QueryParams = map_of query, Keys = Map.empty,
      Written = [], ClearedCookies = []\<rparr>"

definition exampleServer :: UnRustleLogs where
  "exampleServer = NewUnRustleLogs exampleConfig {}"


section \<open>Properties of the state stores\<close>

lemma hasTwitchState_absent: "twitchStates ur st = None \<Longrightarrow> hasTwitchState ur st = False"
  by (simp add: hasTwitchState_def)

lemma hasTwitchState_present: "twitchStates ur st = Some u \<Longrightarrow> hasTwitchState ur st = True"
  by (simp add: hasTwitchState_def)

lemma hasDggState_present:
  "dggStates ur st = Some p \<Longrightarrow> hasDggState ur st = Inr (verifier p, True)"
  by (simp add: hasDggState_def)

lemma hasDggState_absent:
  "dggStates ur st = None \<Longrightarrow> hasDggState ur st = Inl NilPointerDereference"
  by (simp add: hasDggState_def)

lemma hasDggState_never_not_found: "hasDggState ur st \<noteq> Inr (v, False)"
  by (cases "dggStates ur st") (simp_all add: hasDggState_def)

lemma twitchStates_delete:
  "twitchStates (deleteTwitchState ur st) = (twitchStates ur)(st := None)"
  by (cases "twitchStates ur st") (simp_all add: deleteTwitchState_def fun_eq_iff)

lemma dggStates_delete:
  "dggStates (deleteDggState ur st) = (dggStates ur)(st := None)"
  by (cases "dggStates ur st") (simp_all add: deleteDggState_def fun_eq_iff)

lemma twitchStates_deleteDggState: "twitchStates (deleteDggState ur st) = twitchStates ur"
  by (simp add: deleteDggState_def)

lemma dggStates_deleteTwitchState: "dggStates (deleteTwitchState ur st) = dggStates ur"
  by (simp add: deleteTwitchState_def)

lemma deleteTwitchState_absent: "twitchStates ur st = None \<Longrightarrow> deleteTwitchState ur st = ur"
  by (simp add: deleteTwitchState_def)

lemma deleteDggState_absent: "dggStates ur st = None \<Longrightarrow> deleteDggState ur st = ur"
  by (simp add: deleteDggState_def)


subsection \<open>Lookup of a nonce that is not in the store\<close>

text \<open>
  Claim C1. For a nonce that is not in a provider's store the lookup is to return
  found=false without failing; in particular \<open>hasDggState\<close> is to return \<open>(_, false)\<close>
  rather than fault on the missing entry. \<open>hasTwitchState\<close> does so
  (\<open>hasTwitchState_absent\<close>). \<open>hasDggState\<close> does not: on the freshly created server,
  whose dgg store is empty, the lookup of a nonce that was never issued reads the field
  \<open>verifier\<close> through the nil pointer the map returned and panics. By
  \<open>hasDggState_absent\<close> the same holds for every store and every absent nonce, and by
  \<open>hasDggState_never_not_found\<close> no call of \<open>hasDggState\<close> ever returns found=false.
\<close>

theorem hasDggState_never_issued_panics:
  "hasDggState (NewUnRustleLogs exampleConfig {}) ''never-issued'' = Inl NilPointerDereference"
  by (simp add: hasDggState_def NewUnRustleLogs_def)


subsection \<open>Deleting a nonce that is not in the store\<close>

text \<open>
  Claim C7. Deleting a nonce that is not in the store (\<open>deleteTwitchState\<close>,
  \<open>deleteDggState\<close>) is a no-op: the server value, and with it the store map, is
  returned unchanged. Both functions are total and have no error result. In particular
  a second delete of the same nonce, as the expiry goroutine performs after a successful
  consume, changes nothing.
\<close>

theorem delete_absent_is_noop:
  "(twitchStates ur st = None \<longrightarrow> deleteTwitchState ur st = ur) \<and>
   (dggStates ur st = None \<longrightarrow> deleteDggState ur st = ur) \<and>
   deleteTwitchState (deleteTwitchState ur st) st = deleteTwitchState ur st \<and>
   deleteDggState (deleteDggState ur st) st = deleteDggState ur st"
proof (intro conjI impI)
  show "deleteTwitchState (deleteTwitchState ur st) st = deleteTwitchState ur st"
    by (rule deleteTwitchState_absent) (simp add: twitchStates_delete)
  show "deleteDggState (deleteDggState ur st) st = deleteDggState ur st"
    by (rule deleteDggState_absent) (simp add: dggStates_delete)
qed (simp_all add: deleteTwitchState_absent deleteDggState_absent)

text \<open>
  Witness: the twitch store holds the nonce \<open>''m''\<close> and not \<open>''n''\<close>, the dgg store is
  empty; deleting \<open>''n''\<close> from either leaves the server as it was.
\<close>

theorem delete_absent_is_noop_witness:
  "twitchStates (fst (addTwitchState exampleServer ''m'')) ''n'' = None \<and>
   twitchStates (fst (addTwitchState exampleServer ''m'')) ''m'' = Some () \<and>
   deleteTwitchState (fst (addTwitchState exampleServer ''m'')) ''n'' =
     fst (addTwitchState exampleServer ''m'') \<and>
   dggStates exampleServer ''n'' = None \<and>
   deleteDggState exampleServer ''n'' = exampleServer"
  using delete_absent_is_noop [of "fst (addTwitchState exampleServer ''m'')" "''n''"]
    delete_absent_is_noop [of exampleServer "''n''"]
  by (simp add: addTwitchState_def exampleServer_def NewUnRustleLogs_def)


subsection \<open>The service tag of the dgg entries\<close>

lemma relabel_fields:
  "config (relabel f ur) = config ur"
  "db (relabel f ur) = db ur"
  "twitchStates (relabel f ur) = twitchStates ur"
  "dggStates (relabel f ur) st =
     map_option (\<lambda>p. p\<lparr>service := f (service p)\<rparr>) (dggStates ur st)"
  by (simp_all add: relabel_def)

lemma relabel_db_update: "relabel f (ur\<lparr>db := d\<rparr>) = (relabel f ur)\<lparr>db := d\<rparr>"
  by (simp add: relabel_def)

lemma hasDggState_relabel: "hasDggState (relabel f ur) st = hasDggState ur st"
  by (cases "dggStates ur st") (simp_all add: hasDggState_def relabel_fields)

lemma deleteDggState_relabel:
  "deleteDggState (relabel f ur) st = relabel f (deleteDggState ur st)"
  by (cases "dggStates ur st") (auto simp add: deleteDggState_def relabel_def fun_eq_iff)

lemma addDggState_relabel:
  "relabel (\<lambda>_. t) (fst (addDggState (relabel f ur) s v now)) =
   relabel (\<lambda>_. t) (fst (addDggState ur s v now))"
  "snd (addDggState (relabel f ur) s v now) = snd (addDggState ur s v now)"
  by (auto simp add: addDggState_def relabel_def fun_eq_iff map_option_case split: option.splits)

lemma twitch_relabel:
  "hasTwitchState (relabel f ur) st = hasTwitchState ur st"
  "deleteTwitchState (relabel f ur) st = relabel f (deleteTwitchState ur st)"
  "addTwitchState (relabel f ur) st =
     (relabel f (fst (addTwitchState ur st)), snd (addTwitchState ur st))"
  by (simp_all add: hasTwitchState_def deleteTwitchState_def addTwitchState_def relabel_def)


section \<open>Properties of the HTTP layer\<close>

subsection \<open>getUser and jwtMiddleware, case by case\<close>

lemma getUser_absent:
  "Cookies c n = None \<Longrightarrow> getUser P ur c n = (None, c)"
  by (simp add: getUser_def c_Cookie_def)

lemma getUser_rejected:
  "Cookies c n = Some v \<Longrightarrow> P v (JWTSecret (Server (config ur))) = Inl e \<Longrightarrow>
   getUser P ur c n = (None, deleteCookie c v)"
  by (simp add: getUser_def c_Cookie_def)

lemma getUser_parsed:
  "Cookies c n = Some v \<Longrightarrow> P v (JWTSecret (Server (config ur))) = Inr tok \<Longrightarrow>
   getUser P ur c n = (if Valid tok then Some (Claims tok) else None, c)"
  by (simp add: getUser_def c_Cookie_def)

lemma getUser_request:
  "Cookies (snd (getUser P ur c n)) = Cookies c \<and>
   QueryParams (snd (getUser P ur c n)) = QueryParams c \<and>
   Keys (snd (getUser P ur c n)) = Keys c \<and>
   Written (snd (getUser P ur c n)) = Written c"
  by (simp add: getUser_def c_Cookie_def deleteCookie_def split: option.splits sum.splits)

lemma getUser_logged_out:
  assumes "Cookies c n = None \<or>
           (\<exists>v e. Cookies c n = Some v \<and> P v (JWTSecret (Server (config ur))) = Inl e) \<or>
           (\<exists>v tok. Cookies c n = Some v \<and> P v (JWTSecret (Server (config ur))) = Inr tok \<and>
                    \<not> Valid tok)"
  shows "fst (getUser P ur c n) = None"
  using assms by (auto simp add: getUser_absent getUser_rejected getUser_parsed)

lemma getUser_logged_in:
  assumes "Cookies c n = Some v" "P v (JWTSecret (Server (config ur))) = Inr tok" "Valid tok"
  shows "fst (getUser P ur c n) = Some (Claims tok)"
  using assms by (simp add: getUser_parsed)

lemma jwtMiddleware_no_cookie:
  "Cookies c cookie = None \<Longrightarrow>
   jwtMiddleware P fn cookie c ur =
     (c_JSON c StatusUnauthorized [(''message'', ''Unauthorized'')], ur)"
  by (simp add: jwtMiddleware_def c_Cookie_def)

lemma jwtMiddleware_rejected:
  "Cookies c cookie = Some v \<Longrightarrow> P v (JWTSecret (Server (config ur))) = Inl e \<Longrightarrow>
   jwtMiddleware P fn cookie c ur =
     (c_JSON (deleteCookie c v) StatusUnauthorized [(''message'', ''error'')], ur)"
  by (simp add: jwtMiddleware_def c_Cookie_def)

lemma jwtMiddleware_valid:
  "Cookies c cookie = Some v \<Longrightarrow> P v (JWTSecret (Server (config ur))) = Inr tok \<Longrightarrow>
   Valid tok \<Longrightarrow>
   jwtMiddleware P fn cookie c ur = fn (c_Set c ''user'' (Claims tok)) ur"
  by (simp add: jwtMiddleware_def c_Cookie_def)

lemma jwtMiddleware_not_valid:
  "Cookies c cookie = Some v \<Longrightarrow> P v (JWTSecret (Server (config ur))) = Inr tok \<Longrightarrow>
   \<not> Valid tok \<Longrightarrow>
   jwtMiddleware P fn cookie c ur =
     (c_Redirect c StatusTemporaryRedirect
        (if v = Cookie (Config.Twitch (config ur)) then ''/twitch/logout''
         else if v = Cookie (Config.Destinygg (config ur)) then ''/dgg/logout''
         else ''/''), ur)"
  by (simp add: jwtMiddleware_def c_Cookie_def)

lemma deleteHandler_user:
  "c_Get c ''user'' = Some u \<Longrightarrow>
   deleteHandler service' c ur =
     (c_Redirect c StatusFound ''/?delete=true'',
      ur\<lparr>db := AddUser (db ur) (jwtClaims.Name u) service'\<rparr>)"
  by (simp add: deleteHandler_def)

lemma undeleteHandler_user:
  "c_Get c ''user'' = Some u \<Longrightarrow>
   undeleteHandler service' c ur =
     (c_Redirect c StatusFound ''/?delete=false'',
      ur\<lparr>db := DeleteUser (db ur) (jwtClaims.Name u) service'\<rparr>)"
  by (simp add: undeleteHandler_def)

lemma c_Get_c_Set: "c_Get (c_Set c key v) key = Some v"
  by (simp add: c_Get_def c_Set_def)


subsection \<open>A session cookie that fails validation\<close>

text \<open>
  For every request whose session cookie the parser rejects, the middleware answers
  401 with the JSON body \<open>{"message": "error"}\<close>, does not call the wrapped handler and
  tells the client to discard a cookie; the name it passes to \<open>deleteCookie\<close> is the
  rejected cookie's value \<open>v\<close>.
\<close>

lemma jwtMiddleware_rejected_response:
  assumes "Cookies c cookie = Some v" "P v (JWTSecret (Server (config ur))) = Inl e"
  shows "Written (fst (jwtMiddleware P fn cookie c ur)) =
           Written c @ [\<lparr>code = StatusUnauthorized, body = JSONBody [(''message'', ''error'')]\<rparr>] \<and>
         ClearedCookies (fst (jwtMiddleware P fn cookie c ur)) = ClearedCookies c @ [v] \<and>
         snd (jwtMiddleware P fn cookie c ur) = ur"
  using assms by (simp add: jwtMiddleware_rejected c_JSON_def deleteCookie_def)

text \<open>
  Claim C3. A request to \<open>/twitch/delete\<close>, \<open>/twitch/undelete\<close>, \<open>/dgg/delete\<close> or
  \<open>/dgg/undelete\<close> with a session cookie that fails validation is to be answered with
  401 and a JSON body, and the client is to be told to discard the cookie under its
  configured name. The first half holds (\<open>jwtMiddleware_rejected_response\<close>). The
  second does not: a request to \<open>/twitch/delete\<close> carrying the cookie
  \<open>jwt_twitch=expired-token\<close>, which the parser rejects, is answered with 401 and
  \<open>{"message": "error"}\<close>, and the one cookie the client is told to discard is named
  \<open>expired-token\<close>. The cookie \<open>jwt_twitch\<close> stays in place.
\<close>

theorem jwtMiddleware_clears_cookie_value:
  "twitchDelete exampleParser (request [(''jwt_twitch'', ''expired-token'')] []) exampleServer =
     ((request [(''jwt_twitch'', ''expired-token'')] [])
        \<lparr>Written := [\<lparr>code = 401, body = JSONBody [(''message'', ''error'')]\<rparr>],
         ClearedCookies := [''expired-token'']\<rparr>,
      exampleServer)"
  by (simp add: twitchDelete_def jwtMiddleware_def c_Cookie_def request_def exampleServer_def
        NewUnRustleLogs_def exampleConfig_def exampleParser_def deleteCookie_def c_JSON_def
        StatusUnauthorized_def)


subsection \<open>The context key user\<close>

text \<open>
  Claim C8. Whenever \<open>jwtMiddleware\<close> invokes the wrapped handler \<open>fn\<close>, it has first
  stored the validated claims under the context key \<open>user\<close>; so the Unauthorized branch
  of \<open>deleteHandler\<close> and \<open>undeleteHandler\<close> is not reached through the middleware.
  For every parser, cookie name, request and server value: when the named cookie holds
  a value that the parser accepts under the server's secret as a valid token, then,
  whatever the handler \<open>fn\<close> is, the middleware's result is the result of \<open>fn\<close> on the
  context with \<open>user\<close> set to the claims of that token, and on that context
  \<open>deleteHandler\<close> and \<open>undeleteHandler\<close> take their redirect branch. In every other
  case (no cookie, a rejected cookie, a token that is not valid) the middleware's
  result is the same for all handlers: \<open>fn\<close> is not invoked.
\<close>

theorem jwtMiddleware_sets_user_before_fn:
  "(\<forall>v tok. Cookies c cookie = Some v \<and> P v (JWTSecret (Server (config ur))) = Inr tok \<and>
            Valid tok \<longrightarrow>
      (\<forall>fn. jwtMiddleware P fn cookie c ur = fn (c_Set c ''user'' (Claims tok)) ur) \<and>
      c_Get (c_Set c ''user'' (Claims tok)) ''user'' = Some (Claims tok) \<and>
      deleteHandler service' (c_Set c ''user'' (Claims tok)) ur =
        (c_Redirect (c_Set c ''user'' (Claims tok)) StatusFound ''/?delete=true'',
         ur\<lparr>db := AddUser (db ur) (jwtClaims.Name (Claims tok)) service'\<rparr>) \<and>
      undeleteHandler service' (c_Set c ''user'' (Claims tok)) ur =
        (c_Redirect (c_Set c ''user'' (Claims tok)) StatusFound ''/?delete=false'',
         ur\<lparr>db := DeleteUser (db ur) (jwtClaims.Name (Claims tok)) service'\<rparr>)) \<and>
   (\<not> (\<exists>v tok. Cookies c cookie = Some v \<and> P v (JWTSecret (Server (config ur))) = Inr tok \<and>
                Valid tok) \<longrightarrow>
      (\<forall>fn fn'. jwtMiddleware P fn cookie c ur = jwtMiddleware P fn' cookie c ur))"
proof (intro conjI allI impI)
  fix v tok
  assume a: "Cookies c cookie = Some v \<and> P v (JWTSecret (Server (config ur))) = Inr tok \<and> Valid tok"
  have u: "c_Get (c_Set c ''user'' (Claims tok)) ''user'' = Some (Claims tok)"
    by (rule c_Get_c_Set)
  show "c_Get (c_Set c ''user'' (Claims tok)) ''user'' = Some (Claims tok)"
    by (rule u)
  show "deleteHandler service' (c_Set c ''user'' (Claims tok)) ur =
        (c_Redirect (c_Set c ''user'' (Claims tok)) StatusFound ''/?delete=true'',
         ur\<lparr>db := AddUser (db ur) (jwtClaims.Name (Claims tok)) service'\<rparr>)"
    using u by (rule deleteHandler_user)
  show "undeleteHandler service' (c_Set c ''user'' (Claims tok)) ur =
        (c_Redirect (c_Set c ''user'' (Claims tok)) StatusFound ''/?delete=false'',
         ur\<lparr>db := DeleteUser (db ur) (jwtClaims.Name (Claims tok)) service'\<rparr>)"
    using u by (rule undeleteHandler_user)
  fix fn
  show "jwtMiddleware P fn cookie c ur = fn (c_Set c ''user'' (Claims tok)) ur"
    using a by (simp add: jwtMiddleware_valid)
next
  fix fn fn'
  assume n: "\<not> (\<exists>v tok. Cookies c cookie = Some v \<and>
                 P v (JWTSecret (Server (config ur))) = Inr tok \<and> Valid tok)"
  show "jwtMiddleware P fn cookie c ur = jwtMiddleware P fn' cookie c ur"
  proof (cases "Cookies c cookie")
    case None
    then show ?thesis
      by (simp add: jwtMiddleware_no_cookie)
  next
    case (Some v)
    show ?thesis
    proof (cases "P v (JWTSecret (Server (config ur)))")
      case (Inl e)
      with Some show ?thesis
        by (simp add: jwtMiddleware_rejected)
    next
      case (Inr tok)
      with Some n have "\<not> Valid tok"
        by simp
      with Some Inr show ?thesis
        by (simp add: jwtMiddleware_not_valid)
    qed
  qed
qed

text \<open>
  Witness: a request to \<open>/twitch/delete\<close> with Bob's valid token reaches
  \<open>deleteHandler\<close> with \<open>user\<close> set to Bob's claims and is redirected to
  \<open>/?delete=true\<close>; with a cookie the parser rejects, the result is the same whether
  the wrapped handler is \<open>deleteHandler\<close> or the handler that does nothing.
\<close>

theorem jwtMiddleware_sets_user_before_fn_witness:
  "Cookies (request [(''jwt_twitch'', ''token-of-bob'')] []) ''jwt_twitch'' = Some ''token-of-bob'' \<and>
   exampleParser ''token-of-bob'' (JWTSecret (Server (config exampleServer))) =
     Inr \<lparr>Claims = bob, Valid = True\<rparr> \<and>
   jwtMiddleware exampleParser (deleteHandler TWITCHSERVICE) ''jwt_twitch''
       (request [(''jwt_twitch'', ''token-of-bob'')] []) exampleServer =
     (c_Redirect (c_Set (request [(''jwt_twitch'', ''token-of-bob'')] []) ''user'' bob)
        StatusFound ''/?delete=true'',
      exampleServer\<lparr>db := {(''bob'', ''twtch'')}\<rparr>) \<and>
   Cookies (request [(''jwt_twitch'', ''garbage'')] []) ''jwt_twitch'' = Some ''garbage'' \<and>
   exampleParser ''garbage'' (JWTSecret (Server (config exampleServer))) = Inl ValidationError \<and>
   jwtMiddleware exampleParser (deleteHandler TWITCHSERVICE) ''jwt_twitch''
       (request [(''jwt_twitch'', ''garbage'')] []) exampleServer =
     jwtMiddleware exampleParser (\<lambda>c ur. (c, ur)) ''jwt_twitch''
       (request [(''jwt_twitch'', ''garbage'')] []) exampleServer"
  using jwtMiddleware_sets_user_before_fn
      [of "request [(''jwt_twitch'', ''token-of-bob'')] []" "''jwt_twitch''" exampleParser
          exampleServer TWITCHSERVICE]
    jwtMiddleware_sets_user_before_fn
      [of "request [(''jwt_twitch'', ''garbage'')] []" "''jwt_twitch''" exampleParser
          exampleServer TWITCHSERVICE]
  by (simp add: exampleServer_def request_def NewUnRustleLogs_def exampleConfig_def
        exampleParser_def AddUser_def bob_def TWITCHSERVICE_def)


subsection \<open>delete and undelete on the preference store\<close>

text \<open>
  Claim C5. For an authenticated identity (the claims under the context key \<open>user\<close>)
  and a service, the delete handler followed by the undelete handler for the same name
  returns the preference store, and the whole server value, to its original state when
  the (name, service) key had no row; the delete handler run twice leaves the same
  server value as run once, and after it the key has a row.
\<close>

theorem delete_then_undelete:
  assumes "c_Get c1 ''user'' = Some u1" and "c_Get c2 ''user'' = Some u2"
      and "jwtClaims.Name u2 = jwtClaims.Name u1"
  shows "(\<not> UserInDatabase (db ur) (jwtClaims.Name u1) service' \<longrightarrow>
            snd (undeleteHandler service' c2 (snd (deleteHandler service' c1 ur))) = ur) \<and>
         snd (deleteHandler service' c2 (snd (deleteHandler service' c1 ur))) =
           snd (deleteHandler service' c1 ur) \<and>
         UserInDatabase (db (snd (deleteHandler service' c1 ur))) (jwtClaims.Name u1) service'"
  using assms
  by (simp add: deleteHandler_user undeleteHandler_user AddUser_def DeleteUser_def
        UserInDatabase_def)

text \<open>
  Witness: Bob, authenticated, asks for deletion of his twitch logs on the server with
  an empty preference store and then takes the request back; and asks twice.
\<close>

theorem delete_then_undelete_witness:
  "c_Get (c_Set (request [] []) ''user'' bob) ''user'' = Some bob \<and>
   \<not> UserInDatabase (db exampleServer) (jwtClaims.Name bob) TWITCHSERVICE \<and>
   snd (undeleteHandler TWITCHSERVICE (c_Set (request [] []) ''user'' bob)
          (snd (deleteHandler TWITCHSERVICE (c_Set (request [] []) ''user'' bob) exampleServer))) =
     exampleServer \<and>
   snd (deleteHandler TWITCHSERVICE (c_Set (request [] []) ''user'' bob)
          (snd (deleteHandler TWITCHSERVICE (c_Set (request [] []) ''user'' bob) exampleServer))) =
     snd (deleteHandler TWITCHSERVICE (c_Set (request [] []) ''user'' bob) exampleServer) \<and>
   UserInDatabase
     (db (snd (deleteHandler TWITCHSERVICE (c_Set (request [] []) ''user'' bob) exampleServer)))
     (jwtClaims.Name bob) TWITCHSERVICE"
  using delete_then_undelete
    [of "c_Set (request [] []) ''user'' bob" bob "c_Set (request [] []) ''user'' bob" bob
        exampleServer TWITCHSERVICE]
  by (simp add: c_Get_c_Set UserInDatabase_def exampleServer_def NewUnRustleLogs_def)


subsection \<open>The status page\<close>

lemma indexHandler_unfold:
  assumes 1: "getUser P ur c (Cookie (Config.Twitch (config ur))) = (r1, c1)"
      and 2: "getUser P ur c1 (Cookie (Config.Destinygg (config ur))) = (r2, c2)"
  shows "indexHandler P c ur =
     (c_HTML c2 StatusOK ''index.tmpl''
        \<lparr>Title = TITLE,
         Twitch =
           (case r1 of
              None \<Rightarrow> \<lparr>PayloadTwitch.Name = [], PayloadTwitch.Email = [],
                        PayloadTwitch.LoggedIn = False, PayloadTwitch.IsDeleting = False\<rparr>
            | Some u \<Rightarrow> \<lparr>PayloadTwitch.Name = DisplayName u,
                          PayloadTwitch.Email = jwtClaims.Email u,
                          PayloadTwitch.LoggedIn = True,
                          PayloadTwitch.IsDeleting =
                            UserInDatabase (db ur) (jwtClaims.Name u) TWITCHSERVICE\<rparr>),
         Destinygg =
           (case r2 of
              None \<Rightarrow> \<lparr>PayloadDestinygg.Name = [], PayloadDestinygg.LoggedIn = False,
                        PayloadDestinygg.IsDeleting = False\<rparr>
            | Some u \<Rightarrow> \<lparr>PayloadDestinygg.Name = DisplayName u,
                          PayloadDestinygg.LoggedIn = True,
                          PayloadDestinygg.IsDeleting =
                            UserInDatabase (db ur) (jwtClaims.Name u) DESTINYGGSERVICE\<rparr>),
         DeleteStatus = c_Query c ''delete''\<rparr>,
      ur)"
proof -
  have "QueryParams c1 = QueryParams c"
    using getUser_request [of P ur c "Cookie (Config.Twitch (config ur))"] 1 by simp
  moreover have "QueryParams c2 = QueryParams c1"
    using getUser_request [of P ur c1 "Cookie (Config.Destinygg (config ur))"] 2 by simp
  ultimately have q: "c_Query c2 ''delete'' = c_Query c ''delete''"
    by (simp add: c_Query_def)
  show ?thesis
    by (cases r1; cases r2) (simp_all add: indexHandler_def 1 2 q emptyPayload_def Let_def)
qed

text \<open>
  Claim C6. Every request to \<open>GET /\<close> is answered with one HTTP 200 rendering of
  \<open>index.tmpl\<close>, and the server value is unchanged. Each provider's section depends on
  that provider's cookie alone. When the cookie is absent, or the parser rejects it, or
  the parsed token is not valid, the section shows LoggedIn=false. When the cookie
  parses to a valid token, the section shows LoggedIn=true, the claims' display name,
  and IsDeleting equal to \<open>UserInDatabase\<close> for the claims' name and the provider's
  service.
\<close>

theorem indexHandler_renders_status:
  "\<exists>c' payload.
     indexHandler P c ur = (c', ur) \<and>
     Written c' = Written c @ [\<lparr>code = StatusOK, body = HTMLBody ''index.tmpl'' payload\<rparr>] \<and>
     (Cookies c (Cookie (Config.Twitch (config ur))) = None \<or>
      (\<exists>v e. Cookies c (Cookie (Config.Twitch (config ur))) = Some v \<and>
             P v (JWTSecret (Server (config ur))) = Inl e) \<or>
      (\<exists>v tok. Cookies c (Cookie (Config.Twitch (config ur))) = Some v \<and>
               P v (JWTSecret (Server (config ur))) = Inr tok \<and> \<not> Valid tok)
      \<longrightarrow> \<not> PayloadTwitch.LoggedIn (Payload.Twitch payload)) \<and>
     (\<forall>v tok. Cookies c (Cookie (Config.Twitch (config ur))) = Some v \<and>
              P v (JWTSecret (Server (config ur))) = Inr tok \<and> Valid tok
      \<longrightarrow> PayloadTwitch.LoggedIn (Payload.Twitch payload) \<and>
          PayloadTwitch.Name (Payload.Twitch payload) = DisplayName (Claims tok) \<and>
          PayloadTwitch.IsDeleting (Payload.Twitch payload) =
            UserInDatabase (db ur) (jwtClaims.Name (Claims tok)) TWITCHSERVICE) \<and>
     (Cookies c (Cookie (Config.Destinygg (config ur))) = None \<or>
      (\<exists>v e. Cookies c (Cookie (Config.Destinygg (config ur))) = Some v \<and>
             P v (JWTSecret (Server (config ur))) = Inl e) \<or>
      (\<exists>v tok. Cookies c (Cookie (Config.Destinygg (config ur))) = Some v \<and>
               P v (JWTSecret (Server (config ur))) = Inr tok \<and> \<not> Valid tok)
      \<longrightarrow> \<not> PayloadDestinygg.LoggedIn (Payload.Destinygg payload)) \<and>
     (\<forall>v tok. Cookies c (Cookie (Config.Destinygg (config ur))) = Some v \<and>
              P v (JWTSecret (Server (config ur))) = Inr tok \<and> Valid tok
      \<longrightarrow> PayloadDestinygg.LoggedIn (Payload.Destinygg payload) \<and>
          PayloadDestinygg.Name (Payload.Destinygg payload) = DisplayName (Claims tok) \<and>
          PayloadDestinygg.IsDeleting (Payload.Destinygg payload) =
            UserInDatabase (db ur) (jwtClaims.Name (Claims tok)) DESTINYGGSERVICE)"
proof -
  let ?tn = "Cookie (Config.Twitch (config ur))"
  let ?dn = "Cookie (Config.Destinygg (config ur))"
  let ?secret = "JWTSecret (Server (config ur))"
  obtain r1 c1 where 1: "getUser P ur c ?tn = (r1, c1)"
    by (cases "getUser P ur c ?tn")
  obtain r2 c2 where 2: "getUser P ur c1 ?dn = (r2, c2)"
    by (cases "getUser P ur c1 ?dn")
  have c1: "Written c1 = Written c" "Cookies c1 = Cookies c"
    using getUser_request [of P ur c ?tn] 1 by simp_all
  have c2: "Written c2 = Written c1"
    using getUser_request [of P ur c1 ?dn] 2 by simp
  have r1: "r1 = fst (getUser P ur c ?tn)"
    using 1 by simp
  have r2: "r2 = fst (getUser P ur c1 ?dn)"
    using 2 by simp
  obtain payload where
    ih: "indexHandler P c ur = (c_HTML c2 StatusOK ''index.tmpl'' payload, ur)" and
    tw: "Payload.Twitch payload =
           (case r1 of
              None \<Rightarrow> \<lparr>PayloadTwitch.Name = [], PayloadTwitch.Email = [],
                        PayloadTwitch.LoggedIn = False, PayloadTwitch.IsDeleting = False\<rparr>
            | Some u \<Rightarrow> \<lparr>PayloadTwitch.Name = DisplayName u,
                          PayloadTwitch.Email = jwtClaims.Email u,
                          PayloadTwitch.LoggedIn = True,
                          PayloadTwitch.IsDeleting =
                            UserInDatabase (db ur) (jwtClaims.Name u) TWITCHSERVICE\<rparr>)" and
    dg: "Payload.Destinygg payload =
           (case r2 of
              None \<Rightarrow> \<lparr>PayloadDestinygg.Name = [], PayloadDestinygg.LoggedIn = False,
                        PayloadDestinygg.IsDeleting = False\<rparr>
            | Some u \<Rightarrow> \<lparr>PayloadDestinygg.Name = DisplayName u,
                          PayloadDestinygg.LoggedIn = True,
                          PayloadDestinygg.IsDeleting =
                            UserInDatabase (db ur) (jwtClaims.Name u) DESTINYGGSERVICE\<rparr>)"
    using indexHandler_unfold [OF 1 2] by simp
  show ?thesis
  proof (intro exI conjI allI impI)
    show "indexHandler P c ur = (c_HTML c2 StatusOK ''index.tmpl'' payload, ur)"
      by (rule ih)
    show "Written (c_HTML c2 StatusOK ''index.tmpl'' payload) =
          Written c @ [\<lparr>code = StatusOK, body = HTMLBody ''index.tmpl'' payload\<rparr>]"
      by (simp add: c_HTML_def c1 c2)
  next
    assume "Cookies c ?tn = None \<or>
      (\<exists>v e. Cookies c ?tn = Some v \<and> P v ?secret = Inl e) \<or>
      (\<exists>v tok. Cookies c ?tn = Some v \<and> P v ?secret = Inr tok \<and> \<not> Valid tok)"
    then have "r1 = None"
      unfolding r1 by (rule getUser_logged_out)
    then show "\<not> PayloadTwitch.LoggedIn (Payload.Twitch payload)"
      by (simp add: tw)
  next
    fix v tok
    assume "Cookies c ?tn = Some v \<and> P v ?secret = Inr tok \<and> Valid tok"
    then have "r1 = Some (Claims tok)"
      unfolding r1 by (simp add: getUser_logged_in)
    then show "PayloadTwitch.LoggedIn (Payload.Twitch payload)"
      and "PayloadTwitch.Name (Payload.Twitch payload) = DisplayName (Claims tok)"
      and "PayloadTwitch.IsDeleting (Payload.Twitch payload) =
            UserInDatabase (db ur) (jwtClaims.Name (Claims tok)) TWITCHSERVICE"
      by (simp_all add: tw)
  next
    assume "Cookies c ?dn = None \<or>
      (\<exists>v e. Cookies c ?dn = Some v \<and> P v ?secret = Inl e) \<or>
      (\<exists>v tok. Cookies c ?dn = Some v \<and> P v ?secret = Inr tok \<and> \<not> Valid tok)"
    then have "r2 = None"
      unfolding r2 by (intro getUser_logged_out) (simp add: c1)
    then show "\<not> PayloadDestinygg.LoggedIn (Payload.Destinygg payload)"
      by (simp add: dg)
  next
    fix v tok
    assume "Cookies c ?dn = Some v \<and> P v ?secret = Inr tok \<and> Valid tok"
    then have "r2 = Some (Claims tok)"
      unfolding r2 by (simp add: getUser_logged_in c1)
    then show "PayloadDestinygg.LoggedIn (Payload.Destinygg payload)"
      and "PayloadDestinygg.Name (Payload.Destinygg payload) = DisplayName (Claims tok)"
      and "PayloadDestinygg.IsDeleting (Payload.Destinygg payload) =
            UserInDatabase (db ur) (jwtClaims.Name (Claims tok)) DESTINYGGSERVICE"
      by (simp_all add: dg)
  qed
qed

text \<open>
  Witness: Bob has a row for twitch in the preference store; the request carries his
  valid twitch token and a dgg cookie the parser rejects. The page is rendered with
  status 200, the twitch section logged in as Bob and deleting, the dgg section logged
  out.
\<close>

theorem indexHandler_renders_status_witness:
  "\<exists>c' payload.
     indexHandler exampleParser
         (request [(''jwt_twitch'', ''token-of-bob''), (''jwt_dgg'', ''garbage'')] [])
         (NewUnRustleLogs exampleConfig {(''bob'', ''twtch'')}) =
       (c', NewUnRustleLogs exampleConfig {(''bob'', ''twtch'')}) \<and>
     Written c' = [\<lparr>code = 200, body = HTMLBody ''index.tmpl'' payload\<rparr>] \<and>
     exampleParser ''token-of-bob'' ''secret'' = Inr \<lparr>Claims = bob, Valid = True\<rparr> \<and>
     PayloadTwitch.LoggedIn (Payload.Twitch payload) \<and>
     PayloadTwitch.Name (Payload.Twitch payload) = ''Bob'' \<and>
     PayloadTwitch.IsDeleting (Payload.Twitch payload) \<and>
     exampleParser ''garbage'' ''secret'' = Inl ValidationError \<and>
     \<not> PayloadDestinygg.LoggedIn (Payload.Destinygg payload)"
  using indexHandler_renders_status
    [of exampleParser
        "request [(''jwt_twitch'', ''token-of-bob''), (''jwt_dgg'', ''garbage'')] []"
        "NewUnRustleLogs exampleConfig {(''bob'', ''twtch'')}"]
  by (simp add: request_def NewUnRustleLogs_def exampleConfig_def exampleParser_def
        bob_def UserInDatabase_def TWITCHSERVICE_def StatusOK_def)

text \<open>
  Claim C10. For every request to \<open>GET /\<close> the rendered payload's \<open>DeleteStatus\<close> is
  the value of the query parameter \<open>delete\<close> whenever that value is a non-empty string,
  whatever the string is, and the empty string when the parameter is absent or empty.
\<close>

theorem indexHandler_copies_delete_parameter:
  "\<exists>c' payload.
     indexHandler P c ur = (c', ur) \<and>
     Written c' = Written c @ [\<lparr>code = StatusOK, body = HTMLBody ''index.tmpl'' payload\<rparr>] \<and>
     (\<forall>s. QueryParams c ''delete'' = Some s \<and> s \<noteq> [] \<longrightarrow> DeleteStatus payload = s) \<and>
     (QueryParams c ''delete'' = None \<or> QueryParams c ''delete'' = Some [] \<longrightarrow>
        DeleteStatus payload = [])"
proof -
  obtain r1 c1 where 1: "getUser P ur c (Cookie (Config.Twitch (config ur))) = (r1, c1)"
    by (cases "getUser P ur c (Cookie (Config.Twitch (config ur)))")
  obtain r2 c2 where 2: "getUser P ur c1 (Cookie (Config.Destinygg (config ur))) = (r2, c2)"
    by (cases "getUser P ur c1 (Cookie (Config.Destinygg (config ur)))")
  have "Written c1 = Written c"
    using getUser_request [of P ur c "Cookie (Config.Twitch (config ur))"] 1 by simp
  moreover have "Written c2 = Written c1"
    using getUser_request [of P ur c1 "Cookie (Config.Destinygg (config ur))"] 2 by simp
  ultimately have w: "Written c2 = Written c"
    by simp
  show ?thesis
    unfolding indexHandler_unfold [OF 1 2]
    by (auto simp add: c_HTML_def w c_Query_def)
qed

text \<open>
  Witness: \<open>GET /?delete=maybe\<close>, a value neither redirect produces, is rendered with
  \<open>DeleteStatus\<close> \<open>''maybe''\<close>; \<open>GET /\<close> without the parameter is rendered with the
  empty \<open>DeleteStatus\<close>.
\<close>

theorem indexHandler_copies_delete_parameter_witness:
  "(\<exists>c' payload.
      indexHandler exampleParser (request [] [(''delete'', ''maybe'')]) exampleServer =
        (c', exampleServer) \<and>
      Written c' = [\<lparr>code = 200, body = HTMLBody ''index.tmpl'' payload\<rparr>] \<and>
      QueryParams (request [] [(''delete'', ''maybe'')]) ''delete'' = Some ''maybe'' \<and>
      DeleteStatus payload = ''maybe'') \<and>
   (\<exists>c' payload.
      indexHandler exampleParser (request [] []) exampleServer = (c', exampleServer) \<and>
      Written c' = [\<lparr>code = 200, body = HTMLBody ''index.tmpl'' payload\<rparr>] \<and>
      QueryParams (request [] []) ''delete'' = None \<and>
      DeleteStatus payload = [])"
  using indexHandler_copies_delete_parameter
      [of exampleParser "request [] [(''delete'', ''maybe'')]" exampleServer]
    indexHandler_copies_delete_parameter [of exampleParser "request [] []" exampleServer]
  by (simp add: request_def StatusOK_def)


section \<open>The service field is written once and never read\<close>

lemma getUser_relabel: "getUser P (relabel f ur) c n = getUser P ur c n"
  by (simp add: getUser_def relabel_fields split: sum.splits)

lemma indexHandler_relabel:
  "indexHandler P c (relabel f ur) = (fst (indexHandler P c ur), relabel f ur)"
  by (simp add: indexHandler_def getUser_relabel relabel_fields Let_def
        split: prod.splits option.splits)

lemma deleteHandler_relabel:
  "deleteHandler service' c (relabel f ur) =
     (fst (deleteHandler service' c ur), relabel f (snd (deleteHandler service' c ur)))"
  by (simp add: deleteHandler_def relabel_fields relabel_db_update split: option.splits)

lemma undeleteHandler_relabel:
  "undeleteHandler service' c (relabel f ur) =
     (fst (undeleteHandler service' c ur), relabel f (snd (undeleteHandler service' c ur)))"
  by (simp add: undeleteHandler_def relabel_fields relabel_db_update split: option.splits)

lemma jwtMiddleware_relabel:
  assumes "\<And>c'. fn c' (relabel f ur) = (fst (fn c' ur), relabel f (snd (fn c' ur)))"
  shows "jwtMiddleware P fn cookie c (relabel f ur) =
     (fst (jwtMiddleware P fn cookie c ur), relabel f (snd (jwtMiddleware P fn cookie c ur)))"
proof (cases "Cookies c cookie")
  case None
  then show ?thesis
    by (simp add: jwtMiddleware_no_cookie)
next
  case (Some v)
  show ?thesis
  proof (cases "P v (JWTSecret (Server (config ur)))")
    case (Inl e)
    with Some show ?thesis
      by (simp add: jwtMiddleware_rejected relabel_fields)
  next
    case (Inr tok)
    with Some show ?thesis
      by (cases "Valid tok")
         (simp_all add: jwtMiddleware_valid jwtMiddleware_not_valid relabel_fields assms)
  qed
qed

text \<open>
  Claim C9. Every entry that \<open>addDggState\<close> creates in the dgg store carries the twitch
  service tag \<open>''twtch''\<close>, which is not the dgg tag. No operation of main.go reads the
  field: each of them gives the same results on a server whose dgg entries have been
  relabelled by an arbitrary function \<open>f\<close>, and leaves behind the relabelled server.
  This holds for the lookups, deletes and adds of both stores, for \<open>getUser\<close>, for
  \<open>indexHandler\<close>, and for the delete and undelete handlers behind the middleware. For
  \<open>addDggState\<close>, which writes the field, the two resulting servers agree once the tags
  are made equal, and the started goroutine is the same.
\<close>

theorem dgg_service_tag_is_twitch_and_unread:
  "dggStates (fst (addDggState ur s v now)) s =
     Some \<lparr>service = TWITCHSERVICE, verifier = v, time = now\<rparr> \<and>
   TWITCHSERVICE = ''twtch'' \<and> TWITCHSERVICE \<noteq> DESTINYGGSERVICE \<and>
   hasDggState (relabel f ur) st = hasDggState ur st \<and>
   deleteDggState (relabel f ur) st = relabel f (deleteDggState ur st) \<and>
   relabel (\<lambda>_. t) (fst (addDggState (relabel f ur) s v now)) =
     relabel (\<lambda>_. t) (fst (addDggState ur s v now)) \<and>
   snd (addDggState (relabel f ur) s v now) = snd (addDggState ur s v now) \<and>
   hasTwitchState (relabel f ur) st = hasTwitchState ur st \<and>
   deleteTwitchState (relabel f ur) st = relabel f (deleteTwitchState ur st) \<and>
   addTwitchState (relabel f ur) st =
     (relabel f (fst (addTwitchState ur st)), snd (addTwitchState ur st)) \<and>
   getUser P (relabel f ur) c cookie = getUser P ur c cookie \<and>
   indexHandler P c (relabel f ur) = (fst (indexHandler P c ur), relabel f ur) \<and>
   jwtMiddleware P (deleteHandler service') cookie c (relabel f ur) =
     (fst (jwtMiddleware P (deleteHandler service') cookie c ur),
      relabel f (snd (jwtMiddleware P (deleteHandler service') cookie c ur))) \<and>
   jwtMiddleware P (undeleteHandler service') cookie c (relabel f ur) =
     (fst (jwtMiddleware P (undeleteHandler service') cookie c ur),
      relabel f (snd (jwtMiddleware P (undeleteHandler service') cookie c ur)))"
proof (intro conjI)
  show "dggStates (fst (addDggState ur s v now)) s =
          Some \<lparr>service = TWITCHSERVICE, verifier = v, time = now\<rparr>"
    by (simp add: addDggState_def)
  show "TWITCHSERVICE = ''twtch''" and "TWITCHSERVICE \<noteq> DESTINYGGSERVICE"
    by (simp_all add: TWITCHSERVICE_def DESTINYGGSERVICE_def)
  show "jwtMiddleware P (deleteHandler service') cookie c (relabel f ur) =
     (fst (jwtMiddleware P (deleteHandler service') cookie c ur),
      relabel f (snd (jwtMiddleware P (deleteHandler service') cookie c ur)))"
    by (rule jwtMiddleware_relabel) (rule deleteHandler_relabel)
  show "jwtMiddleware P (undeleteHandler service') cookie c (relabel f ur) =
     (fst (jwtMiddleware P (undeleteHandler service') cookie c ur),
      relabel f (snd (jwtMiddleware P (undeleteHandler service') cookie c ur)))"
    by (rule jwtMiddleware_relabel) (rule undeleteHandler_relabel)
qed (simp_all add: hasDggState_relabel deleteDggState_relabel addDggState_relabel twitch_relabel
       getUser_relabel indexHandler_relabel)

text \<open>
  Witness: the entry stored for the nonce \<open>''n''\<close> on the example server is tagged
  \<open>''twtch''\<close>, and the lookup returns the verifier whether the tag is left as it is or
  replaced by the dgg tag.
\<close>

theorem dgg_service_tag_is_twitch_and_unread_witness:
  "map_option service (dggStates (fst (addDggState exampleServer ''n'' ''v'' 0)) ''n'') =
     Some ''twtch'' \<and>
   hasDggState (fst (addDggState exampleServer ''n'' ''v'' 0)) ''n'' = Inr (''v'', True) \<and>
   hasDggState (relabel (\<lambda>_. DESTINYGGSERVICE) (fst (addDggState exampleServer ''n'' ''v'' 0)))
     ''n'' = Inr (''v'', True)"
  using dgg_service_tag_is_twitch_and_unread
    [where ur = exampleServer and s = "''n''" and v = "''v''" and now = 0]
    dgg_service_tag_is_twitch_and_unread
    [where ur = "fst (addDggState exampleServer ''n'' ''v'' 0)" and st = "''n''"
       and f = "\<lambda>_. DESTINYGGSERVICE"]
  by (simp add: hasDggState_def addDggState_def)


section \<open>Expiry of the state store entries\<close>

lemma twitchStates_wake:
  "twitchStates (foldl wake ur gs) s =
     (if DeleteTwitchState s \<in> set gs then None else twitchStates ur s)"
proof (induction gs arbitrary: ur)
  case Nil
  show ?case by simp
next
  case (Cons g gs)
  show ?case
    by (cases g) (auto simp add: Cons.IH twitchStates_delete twitchStates_deleteDggState)
qed

lemma dggStates_wake:
  "dggStates (foldl wake ur gs) s =
     (if DeleteDggState s \<in> set gs then None else dggStates ur s)"
proof (induction gs arbitrary: ur)
  case Nil
  show ?case by simp
next
  case (Cons g gs)
  show ?case
    by (cases g) (auto simp add: Cons.IH dggStates_delete dggStates_deleteTwitchState)
qed

lemma server_elapse:
  "server (elapse w d) =
     foldl wake (server w) (map snd (filter (\<lambda>(t, g). t \<le> clock w + d) (sleeping w)))"
  by (simp add: elapse_def Let_def)

text \<open>Every add schedules the removal of the nonce it adds, five minutes later.\<close>

lemma addTwitchState_goroutine:
  "snd (addTwitchState ur s) = \<lparr>sleep = 5 * Minute, call = DeleteTwitchState s\<rparr>"
  by (simp add: addTwitchState_def)

lemma addDggState_goroutine:
  "snd (addDggState ur s v now) = \<lparr>sleep = 5 * Minute, call = DeleteDggState s\<rparr>"
  by (simp add: addDggState_def)

lemma issueTwitch_world:
  "sleeping (issueTwitch w s) = sleeping w @ [(clock w + 5 * Minute, DeleteTwitchState s)]"
  "clock (issueTwitch w s) = clock w"
  "hasTwitchState (server (issueTwitch w s)) s"
  by (simp_all add: issueTwitch_def addTwitchState_def go_def hasTwitchState_def)

lemma issueDgg_world:
  "sleeping (issueDgg w s v) = sleeping w @ [(clock w + 5 * Minute, DeleteDggState s)]"
  "clock (issueDgg w s v) = clock w"
  "hasDggState (server (issueDgg w s v)) s = Inr (v, True)"
  by (simp_all add: issueDgg_def addDggState_def go_def hasDggState_def)

text \<open>
  Five minutes after a nonce was issued it is in neither store, whatever else was in
  the world; before that, an entry that no older goroutine is about to remove is still
  there.
\<close>

lemma twitch_entry_expires:
  assumes "5 * Minute \<le> d"
  shows "twitchStates (server (elapse (issueTwitch w s) d)) s = None"
  using assms by (simp add: server_elapse twitchStates_delete issueTwitch_world)

lemma dgg_entry_expires:
  assumes "5 * Minute \<le> d"
  shows "dggStates (server (elapse (issueDgg w s v) d)) s = None"
  using assms by (simp add: server_elapse dggStates_delete issueDgg_world)

lemma twitch_entry_kept:
  assumes "d < 5 * Minute" and "DeleteTwitchState s \<notin> snd ` set (sleeping w)"
  shows "hasTwitchState (server (elapse (issueTwitch w s) d)) s"
  using assms
  by (auto simp add: server_elapse twitchStates_wake issueTwitch_world hasTwitchState_def
        image_iff issueTwitch_def addTwitchState_def go_def)

lemma twitch_lookup_after_expiry:
  "5 * Minute \<le> d \<Longrightarrow> hasTwitchState (server (elapse (issueTwitch w s) d)) s = False"
  by (simp add: hasTwitchState_def twitch_entry_expires)

lemma dgg_lookup_after_expiry:
  "5 * Minute \<le> d \<Longrightarrow>
   hasDggState (server (elapse (issueDgg w s v) d)) s = Inl NilPointerDereference"
  by (simp add: hasDggState_def dgg_entry_expires)

text \<open>
  Claim C4. Every entry has its removal scheduled when it is issued, the removal fires
  five minutes later and deletes the entry, and from then on the lookup is to return
  not-found even for the correct nonce. The removal is scheduled
  (\<open>addTwitchState_goroutine\<close>, \<open>addDggState_goroutine\<close>) and the entry is gone after
  five minutes (\<open>twitch_entry_expires\<close>, \<open>dgg_entry_expires\<close>); the twitch lookup then
  returns false (\<open>twitch_lookup_after_expiry\<close>). The dgg lookup does not return
  not-found: on the example server the nonce \<open>''n''\<close> is issued with the verifier
  \<open>''v''\<close> at start-up, five minutes pass, and the lookup of \<open>''n''\<close> panics on the nil
  pointer of the removed entry. By \<open>dgg_lookup_after_expiry\<close> this is so for every
  world, nonce and verifier.
\<close>

theorem expired_dgg_lookup_panics:
  "hasDggState (server (elapse (issueDgg (boot exampleServer) ''n'' ''v'') (5 * Minute))) ''n'' =
   Inl NilPointerDereference"
  by (rule dgg_lookup_after_expiry) simp


section \<open>Callbacks that present the same nonce\<close>

lemma interleave_append:
  "interleave stp (a @ b) cfg = interleave stp b (interleave stp a cfg)"
proof (induction a arbitrary: cfg)
  case Nil
  show ?case by (cases cfg) simp
next
  case (Cons i a)
  show ?case
  proof (cases cfg)
    case (Pair ur cs)
    then show ?thesis
      by (simp add: Cons.IH split: prod.splits)
  qed
qed

lemma interleave_step:
  assumes "stp ur p = (ur', q)"
  shows "interleave stp (length pre # schedule) (ur, pre @ p # post) =
         interleave stp schedule (ur', pre @ q # post)"
  using assms by simp

lemma serial_Suc: "serial first (Suc n) = first # first # serial (Suc first) n"
  by (simp add: serial_def upt_conv_Cons)

text \<open>
  One step of each of the callers \<open>length pre, ..., length pre + k - 1\<close>, all in the
  state \<open>p\<close>, when that step leaves the server as it is.
\<close>

lemma interleave_phase:
  assumes "stp ur p = (ur, q)"
  shows "interleave stp [length pre..<length pre + k] (ur, pre @ replicate k p) =
         (ur, pre @ replicate k q)"
proof (induction k arbitrary: pre)
  case 0
  show ?case by simp
next
  case (Suc k)
  have "[length pre..<length pre + Suc k] =
        length pre # [length (pre @ [q])..<length (pre @ [q]) + k]"
    by (simp add: upt_conv_Cons)
  moreover have "interleave stp (length pre # [length (pre @ [q])..<length (pre @ [q]) + k])
                   (ur, pre @ p # replicate k p) =
                 interleave stp [length (pre @ [q])..<length (pre @ [q]) + k]
                   (ur, pre @ q # replicate k p)"
    using assms by (rule interleave_step)
  moreover have "interleave stp [length (pre @ [q])..<length (pre @ [q]) + k]
                   (ur, (pre @ [q]) @ replicate k p) = (ur, (pre @ [q]) @ replicate k q)"
    by (rule Suc.IH)
  ultimately show ?case
    by simp
qed

text \<open>
  Callers that run one after another on a server where the lookup ends the sequence
  with the result \<open>r\<close> and changes nothing.
\<close>

lemma interleave_serial_rest:
  assumes "stp ur AtLookup = (ur, r)" and "stp ur r = (ur, r)"
  shows "interleave stp (serial (length pre) k) (ur, pre @ replicate k AtLookup) =
         (ur, pre @ replicate k r)"
proof (induction k arbitrary: pre)
  case 0
  show ?case by (simp add: serial_def)
next
  case (Suc k)
  have "interleave stp (serial (length pre) (Suc k)) (ur, pre @ replicate (Suc k) AtLookup) =
        interleave stp (length pre # serial (length (pre @ [r])) k)
          (ur, pre @ r # replicate k AtLookup)"
    using assms(1) interleave_step [of stp ur AtLookup ur r pre _ "replicate k AtLookup"]
    by (simp add: serial_Suc)
  also have "\<dots> = interleave stp (serial (length (pre @ [r])) k)
                     (ur, (pre @ [r]) @ replicate k AtLookup)"
    using assms(2) interleave_step [of stp ur r ur r pre _ "replicate k AtLookup"] by simp
  also have "\<dots> = (ur, (pre @ [r]) @ replicate k r)"
    by (rule Suc.IH)
  finally show ?case
    by simp
qed

lemma interleave_serial:
  assumes "stp ur AtLookup = (ur, AtDelete)" and "stp ur AtDelete = (ur', Done True)"
      and "stp ur' AtLookup = (ur', r)" and "stp ur' r = (ur', r)"
  shows "interleave stp (serial 0 (Suc k)) (ur, replicate (Suc k) AtLookup) =
         (ur', Done True # replicate k r)"
proof -
  have "interleave stp (serial 0 (Suc k)) (ur, replicate (Suc k) AtLookup) =
        interleave stp (0 # serial (Suc 0) k) (ur, AtDelete # replicate k AtLookup)"
    using assms(1) interleave_step [of stp ur AtLookup ur AtDelete "[]" _ "replicate k AtLookup"]
    by (simp add: serial_Suc)
  also have "\<dots> = interleave stp (serial (length [Done True]) k)
                     (ur', [Done True] @ replicate k AtLookup)"
    using assms(2) interleave_step [of stp ur AtDelete ur' "Done True" "[]" _ "replicate k AtLookup"]
    by simp
  also have "\<dots> = (ur', [Done True] @ replicate k r)"
    using assms(3,4) by (rule interleave_serial_rest)
  finally show ?thesis
    by simp
qed

lemma interleave_lookupsFirst:
  assumes "stp ur AtLookup = (ur, AtDelete)" and "stp ur AtDelete = (ur', Done True)"
      and "stp ur' AtDelete = (ur', Done True)"
  shows "interleave stp (lookupsFirst (Suc k)) (ur, replicate (Suc k) AtLookup) =
         (ur', replicate (Suc k) (Done True))"
proof -
  have "interleave stp [0..<Suc k] (ur, replicate (Suc k) AtLookup) =
        (ur, replicate (Suc k) AtDelete)"
    using assms(1) interleave_phase [of stp ur AtLookup AtDelete "[]" "Suc k"] by simp
  moreover have "interleave stp [0..<Suc k] (ur, replicate (Suc k) AtDelete) =
        interleave stp [length [Done True]..<length [Done True] + k]
          (ur', [Done True] @ replicate k AtDelete)"
    using assms(2) interleave_step [of stp ur AtDelete ur' "Done True" "[]" _ "replicate k AtDelete"]
    by (simp add: upt_conv_Cons del: upt_Suc)
  moreover have "\<dots> = (ur', [Done True] @ replicate k (Done True))"
    using assms(3) by (rule interleave_phase)
  ultimately show ?thesis
    by (simp add: lookupsFirst_def interleave_append del: upt_Suc)
qed

lemma twitchCallback_steps:
  assumes "hasTwitchState ur st"
  shows "twitchCallback st ur AtLookup = (ur, AtDelete)"
    and "twitchCallback st ur AtDelete = (deleteTwitchState ur st, Done True)"
    and "twitchCallback st (deleteTwitchState ur st) AtLookup =
           (deleteTwitchState ur st, Done False)"
    and "twitchCallback st (deleteTwitchState ur st) (Done False) =
           (deleteTwitchState ur st, Done False)"
    and "twitchCallback st (deleteTwitchState ur st) AtDelete =
           (deleteTwitchState ur st, Done True)"
  using assms
  by (simp_all add: twitchCallback_def hasTwitchState_def twitchStates_delete
        deleteTwitchState_def)

lemma dggCallback_steps:
  assumes "hasDggState ur st = Inr (v, True)"
  shows "dggCallback st ur AtLookup = (ur, AtDelete)"
    and "dggCallback st ur AtDelete = (deleteDggState ur st, Done True)"
    and "dggCallback st (deleteDggState ur st) AtLookup = (deleteDggState ur st, Panicked)"
    and "dggCallback st (deleteDggState ur st) Panicked = (deleteDggState ur st, Panicked)"
    and "dggCallback st (deleteDggState ur st) AtDelete = (deleteDggState ur st, Done True)"
  using assms
  by (simp_all add: dggCallback_def hasDggState_def dggStates_delete deleteDggState_def
        split: option.splits)

text \<open>A callback with a nonce that is not in the store does not observe found=true.\<close>

lemma absent_nonce_not_found:
  "twitchStates ur st = None \<Longrightarrow> \<not> observedFound (snd (twitchCallback st ur AtLookup))"
  "dggStates ur st = None \<Longrightarrow> \<not> observedFound (snd (dggCallback st ur AtLookup))"
  by (simp_all add: twitchCallback_def dggCallback_def hasTwitchState_absent hasDggState_absent
        observedFound_def)

text \<open>
  Claim C2, as stated: of N concurrent callbacks that present the same issued nonce
  exactly one observes found=true, the check and the delete being one critical
  section. Counterexample: the nonce \<open>''n''\<close> is issued on the example server and two
  callbacks present it; caller 0 looks up, caller 1 looks up, caller 0 deletes, caller
  1 deletes. Both observe found=true.
\<close>

theorem concurrent_callbacks_both_found:
  "map observedFound
     (snd (interleave (twitchCallback ''n'') [0, 1, 0, 1]
             (fst (addTwitchState exampleServer ''n''), [AtLookup, AtLookup]))) =
   [True, True]"
  by (simp add: twitchCallback_def hasTwitchState_def deleteTwitchState_def addTwitchState_def
        exampleServer_def NewUnRustleLogs_def observedFound_def)

text \<open>
  Callbacks that run one after another, and callbacks that all look up before the
  first of them deletes.
\<close>

lemma callbacks_in_turn_one_found:
  "(hasTwitchState ur st \<longrightarrow>
      map observedFound
        (snd (interleave (twitchCallback st) (serial 0 (Suc k))
                (ur, replicate (Suc k) AtLookup))) =
      True # replicate k False) \<and>
   ((\<exists>v. hasDggState ur st = Inr (v, True)) \<longrightarrow>
      map observedFound
        (snd (interleave (dggCallback st) (serial 0 (Suc k))
                (ur, replicate (Suc k) AtLookup))) =
      True # replicate k False) \<and>
   (hasTwitchState ur st \<longrightarrow>
      map observedFound
        (snd (interleave (twitchCallback st) (lookupsFirst (Suc k))
                (ur, replicate (Suc k) AtLookup))) =
      replicate (Suc k) True) \<and>
   ((\<exists>v. hasDggState ur st = Inr (v, True)) \<longrightarrow>
      map observedFound
        (snd (interleave (dggCallback st) (lookupsFirst (Suc k))
                (ur, replicate (Suc k) AtLookup))) =
      replicate (Suc k) True)"
proof (intro conjI impI)
  assume h: "hasTwitchState ur st"
  have "interleave (twitchCallback st) (serial 0 (Suc k)) (ur, replicate (Suc k) AtLookup) =
        (deleteTwitchState ur st, Done True # replicate k (Done False))"
    by (intro interleave_serial twitchCallback_steps h)
  then show "map observedFound
        (snd (interleave (twitchCallback st) (serial 0 (Suc k))
                (ur, replicate (Suc k) AtLookup))) =
      True # replicate k False"
    by (simp add: observedFound_def)
  have "interleave (twitchCallback st) (lookupsFirst (Suc k)) (ur, replicate (Suc k) AtLookup) =
        (deleteTwitchState ur st, replicate (Suc k) (Done True))"
    by (intro interleave_lookupsFirst twitchCallback_steps h)
  then show "map observedFound
        (snd (interleave (twitchCallback st) (lookupsFirst (Suc k))
                (ur, replicate (Suc k) AtLookup))) =
      replicate (Suc k) True"
    by (simp add: observedFound_def)
next
  assume "\<exists>v. hasDggState ur st = Inr (v, True)"
  then obtain v where h: "hasDggState ur st = Inr (v, True)" ..
  have "interleave (dggCallback st) (serial 0 (Suc k)) (ur, replicate (Suc k) AtLookup) =
        (deleteDggState ur st, Done True # replicate k Panicked)"
    by (intro interleave_serial dggCallback_steps [OF h])
  then show "map observedFound
        (snd (interleave (dggCallback st) (serial 0 (Suc k))
                (ur, replicate (Suc k) AtLookup))) =
      True # replicate k False"
    by (simp add: observedFound_def)
next
  assume "\<exists>v. hasDggState ur st = Inr (v, True)"
  then obtain v where h: "hasDggState ur st = Inr (v, True)" ..
  have "interleave (dggCallback st) (lookupsFirst (Suc k)) (ur, replicate (Suc k) AtLookup) =
        (deleteDggState ur st, replicate (Suc k) (Done True))"
    by (intro interleave_lookupsFirst dggCallback_steps [OF h])
  then show "map observedFound
        (snd (interleave (dggCallback st) (lookupsFirst (Suc k))
                (ur, replicate (Suc k) AtLookup))) =
      replicate (Suc k) True"
    by (simp add: observedFound_def)
qed


subsection \<open>Every schedule\<close>

lemma consumeSteps_twitch: "consumeSteps (\<lambda>ur. hasTwitchState ur st) (twitchCallback st)"
  by (simp add: consumeSteps_def twitchCallback_def hasTwitchState_def twitchStates_delete)

lemma consumeSteps_dgg: "consumeSteps (\<lambda>ur. dggStates ur st \<noteq> None) (dggCallback st)"
  by (auto simp add: consumeSteps_def dggCallback_def hasDggState_def dggStates_delete)

lemma interleave_length: "length (snd (interleave stp schedule (ur, cs))) = length cs"
  by (induction schedule arbitrary: ur cs) (simp_all split: prod.splits)

lemma step_keeps_found:
  assumes "consumeSteps present stp" and "observedFound pc"
  shows "observedFound (snd (stp ur pc))"
  using assms by (cases pc) (simp_all add: consumeSteps_def observedFound_def)

lemma step_absent:
  assumes "consumeSteps present stp" and "\<not> present ur"
  shows "\<not> present (fst (stp ur pc))"
    and "\<not> observedFound pc \<Longrightarrow> \<not> observedFound (snd (stp ur pc))"
  using assms by (cases pc; auto simp add: consumeSteps_def observedFound_def)+

lemma interleave_keeps_found:
  assumes "consumeSteps present stp"
  shows "i < length cs \<Longrightarrow> observedFound (cs ! i) \<Longrightarrow>
         observedFound (snd (interleave stp schedule (ur, cs)) ! i)"
proof (induction schedule arbitrary: ur cs)
  case Nil
  then show ?case by simp
next
  case (Cons j schedule)
  show ?case
  proof (cases "j < length cs")
    case False
    then show ?thesis
      using Cons by simp
  next
    case True
    obtain ur' pc' where s: "stp ur (cs ! j) = (ur', pc')"
      by (cases "stp ur (cs ! j)")
    have "observedFound (cs[j := pc'] ! i)"
    proof (cases "i = j")
      case True
      then show ?thesis
        using step_keeps_found [OF assms, of "cs ! j" ur] Cons.prems s by simp
    next
      case False
      then show ?thesis
        using Cons.prems by simp
    qed
    then have "observedFound (snd (interleave stp schedule (ur', cs[j := pc'])) ! i)"
      using Cons.prems by (intro Cons.IH) simp_all
    then show ?thesis
      using True s by simp
  qed
qed

lemma interleave_absent:
  assumes "consumeSteps present stp"
  shows "\<not> present ur \<Longrightarrow>
         \<not> present (fst (interleave stp schedule (ur, cs))) \<and>
         (\<forall>i<length cs. \<not> observedFound (cs ! i) \<longrightarrow>
            \<not> observedFound (snd (interleave stp schedule (ur, cs)) ! i))"
proof (induction schedule arbitrary: ur cs)
  case Nil
  then show ?case by simp
next
  case (Cons j schedule)
  show ?case
  proof (cases "j < length cs")
    case False
    then show ?thesis
      using Cons by simp
  next
    case True
    obtain ur' pc' where s: "stp ur (cs ! j) = (ur', pc')"
      by (cases "stp ur (cs ! j)")
    have a: "\<not> present ur'"
      using step_absent(1) [OF assms Cons.prems, of "cs ! j"] s by simp
    have b: "\<not> observedFound (cs ! j) \<Longrightarrow> \<not> observedFound pc'"
      using step_absent(2) [OF assms Cons.prems, of "cs ! j"] s by simp
    have "\<forall>i<length cs. \<not> observedFound (cs ! i) \<longrightarrow> \<not> observedFound (cs[j := pc'] ! i)"
    proof (intro allI impI)
      fix i
      assume "i < length cs" "\<not> observedFound (cs ! i)"
      then show "\<not> observedFound (cs[j := pc'] ! i)"
        using b by (cases "i = j") simp_all
    qed
    then show ?thesis
      using Cons.IH [OF a, of "cs[j := pc']"] True s by simp
  qed
qed

lemma interleave_lookups:
  assumes "consumeSteps present stp" and "present ur"
  shows "distinct pre \<Longrightarrow> \<forall>i\<in>set pre. i < length cs \<longrightarrow> cs ! i = AtLookup \<Longrightarrow>
         fst (interleave stp pre (ur, cs)) = ur \<and>
         (\<forall>i\<in>set pre. i < length cs \<longrightarrow>
            observedFound (snd (interleave stp pre (ur, cs)) ! i))"
proof (induction pre arbitrary: cs)
  case Nil
  then show ?case by simp
next
  case (Cons j pre)
  show ?case
  proof (cases "j < length cs")
    case False
    then show ?thesis
      using Cons by simp
  next
    case True
    have s: "stp ur (cs ! j) = (ur, AtDelete)"
      using assms Cons.prems True by (simp add: consumeSteps_def)
    have d: "distinct pre" "j \<notin> set pre"
      using Cons.prems by simp_all
    have "\<forall>i\<in>set pre. i < length (cs[j := AtDelete]) \<longrightarrow> cs[j := AtDelete] ! i = AtLookup"
    proof (intro ballI impI)
      fix i
      assume i: "i \<in> set pre" "i < length (cs[j := AtDelete])"
      then have "i \<noteq> j"
        using d by auto
      then show "cs[j := AtDelete] ! i = AtLookup"
        using Cons.prems(2) i by simp
    qed
    from Cons.IH [OF d(1) this]
    have ih: "fst (interleave stp pre (ur, cs[j := AtDelete])) = ur"
      "\<forall>i\<in>set pre. i < length cs \<longrightarrow>
         observedFound (snd (interleave stp pre (ur, cs[j := AtDelete])) ! i)"
      by simp_all
    have j: "observedFound (snd (interleave stp pre (ur, cs[j := AtDelete])) ! j)"
      using True by (intro interleave_keeps_found [OF assms(1)]) (simp_all add: observedFound_def)
    show ?thesis
      using True s ih j by simp
  qed
qed


lemma step_invariant:
  assumes "consumeSteps present stp" and "j < length cs"
      and "(present ur \<longrightarrow> (\<forall>pc\<in>set cs. pc = AtLookup \<or> pc = AtDelete)) \<and>
           (\<not> present ur \<longrightarrow> Done True \<in> set cs)"
  shows "(present (fst (stp ur (cs ! j))) \<longrightarrow>
            (\<forall>pc\<in>set (cs[j := snd (stp ur (cs ! j))]). pc = AtLookup \<or> pc = AtDelete)) \<and>
         (\<not> present (fst (stp ur (cs ! j))) \<longrightarrow>
            Done True \<in> set (cs[j := snd (stp ur (cs ! j))]))"
proof (cases "present ur")
  case True
  then have "cs ! j = AtLookup \<or> cs ! j = AtDelete"
    using assms(2,3) by simp
  then show ?thesis
  proof
    assume "cs ! j = AtLookup"
    then have "stp ur (cs ! j) = (ur, AtDelete)"
      using assms(1) True by (simp add: consumeSteps_def)
    then show ?thesis
      using True assms(3) by (auto dest: set_update_subset_insert [THEN subsetD])
  next
    assume "cs ! j = AtDelete"
    then have "\<not> present (fst (stp ur (cs ! j)))" "snd (stp ur (cs ! j)) = Done True"
      using assms(1) by (simp_all add: consumeSteps_def)
    then show ?thesis
      using assms(2) by (simp add: set_update_memI)
  qed
next
  case False
  then obtain k where k: "k < length cs" "cs ! k = Done True"
    using assms(3) by (auto simp add: in_set_conv_nth)
  have a: "\<not> present (fst (stp ur (cs ! j)))"
    using step_absent(1) [OF assms(1) False] .
  have "cs[j := snd (stp ur (cs ! j))] ! k = Done True"
  proof (cases "k = j")
    case True
    then show ?thesis
      using k assms(1) by (simp add: consumeSteps_def)
  next
    case False
    then show ?thesis
      using k by simp
  qed
  then have "Done True \<in> set (cs[j := snd (stp ur (cs ! j))])"
    using k(1) by (metis length_list_update nth_mem)
  then show ?thesis
    using a by simp
qed

lemma interleave_invariant:
  assumes "consumeSteps present stp"
  shows "(present ur \<longrightarrow> (\<forall>pc\<in>set cs. pc = AtLookup \<or> pc = AtDelete)) \<and>
         (\<not> present ur \<longrightarrow> Done True \<in> set cs) \<Longrightarrow>
         (present (fst (interleave stp schedule (ur, cs))) \<longrightarrow>
            (\<forall>pc\<in>set (snd (interleave stp schedule (ur, cs))). pc = AtLookup \<or> pc = AtDelete)) \<and>
         (\<not> present (fst (interleave stp schedule (ur, cs))) \<longrightarrow>
            Done True \<in> set (snd (interleave stp schedule (ur, cs))))"
proof (induction schedule arbitrary: ur cs)
  case Nil
  then show ?case by simp
next
  case (Cons j schedule)
  show ?case
  proof (cases "j < length cs")
    case False
    then show ?thesis
      using Cons by simp
  next
    case True
    have "interleave stp (j # schedule) (ur, cs) =
          interleave stp schedule (fst (stp ur (cs ! j)), cs[j := snd (stp ur (cs ! j))])"
      using True by (simp add: split_beta)
    then show ?thesis
      using Cons.IH [OF step_invariant [OF assms True Cons.prems]] by simp
  qed
qed

lemma finished_found:
  assumes "consumeSteps present stp" and "present ur" and "0 < n"
      and "finished (snd (interleave stp schedule (ur, replicate n AtLookup)))"
  shows "\<not> present (fst (interleave stp schedule (ur, replicate n AtLookup))) \<and>
         (\<exists>i<n. observedFound (snd (interleave stp schedule (ur, replicate n AtLookup)) ! i))"
proof -
  let ?r = "interleave stp schedule (ur, replicate n AtLookup)"
  have len: "length (snd ?r) = n"
    by (simp add: interleave_length)
  have inv: "(present (fst ?r) \<longrightarrow> (\<forall>pc\<in>set (snd ?r). pc = AtLookup \<or> pc = AtDelete)) \<and>
             (\<not> present (fst ?r) \<longrightarrow> Done True \<in> set (snd ?r))"
    using assms(2) by (intro interleave_invariant [OF assms(1)]) simp
  have "snd ?r ! 0 \<in> set (snd ?r)"
    using len assms(3) by (intro nth_mem) simp
  moreover have "\<forall>pc\<in>set (snd ?r). pc \<noteq> AtLookup \<and> pc \<noteq> AtDelete"
    using assms(4) by (auto simp add: finished_def list_all_iff)
  ultimately have gone: "\<not> present (fst ?r)"
    using inv by blast
  then have "Done True \<in> set (snd ?r)"
    using inv by simp
  then obtain i where "i < n" "snd ?r ! i = Done True"
    using len by (auto simp add: in_set_conv_nth)
  then have "\<exists>i<n. observedFound (snd ?r ! i)"
    by (auto simp add: observedFound_def)
  with gone show ?thesis
    by simp
qed

lemma hasDggState_found_iff:
  "(\<exists>v. hasDggState ur st = Inr (v, True)) \<longleftrightarrow> dggStates ur st \<noteq> None"
  by (cases "dggStates ur st") (simp_all add: hasDggState_def)

lemma lookups_before_delete_found:
  assumes "consumeSteps present stp" and "present ur" and "distinct pre"
      and "i \<in> set pre" and "i < n"
  shows "observedFound (snd (interleave stp (pre @ post) (ur, replicate n AtLookup)) ! i)"
proof -
  let ?r = "interleave stp pre (ur, replicate n AtLookup)"
  have "observedFound (snd ?r ! i)"
    using interleave_lookups [OF assms(1,2,3), of "replicate n AtLookup"] assms(4,5) by simp
  moreover have "i < length (snd ?r)"
    using assms(5) by (simp add: interleave_length)
  ultimately have "observedFound (snd (interleave stp post (fst ?r, snd ?r)) ! i)"
    using interleave_keeps_found [OF assms(1), of i "snd ?r" post "fst ?r"] by simp
  then show ?thesis
    by (simp add: interleave_append)
qed

lemma lookups_after_delete_not_found:
  assumes "consumeSteps present stp"
      and "\<not> present (fst (interleave stp pre (ur, replicate n AtLookup)))"
      and "i < n" and "snd (interleave stp pre (ur, replicate n AtLookup)) ! i = AtLookup"
  shows "\<not> observedFound (snd (interleave stp (pre @ post) (ur, replicate n AtLookup)) ! i)"
proof -
  let ?r = "interleave stp pre (ur, replicate n AtLookup)"
  have "i < length (snd ?r)" "\<not> observedFound (snd ?r ! i)"
    using assms(3,4) by (simp_all add: interleave_length observedFound_def)
  then have "\<not> observedFound (snd (interleave stp post (fst ?r, snd ?r)) ! i)"
    using interleave_absent [OF assms(1,2), of post "snd ?r"] by simp
  then show ?thesis
    by (simp add: interleave_append)
qed

text \<open>
  Claim C2, amended. The lookup and the delete are two critical sections, so more than
  one callback can observe found=true. For \<open>n\<close> callbacks that present a nonce of the
  store, twitch or dgg, and every schedule of their steps:
  once all callers have returned (and there is at least one), the nonce is gone from
  the store and at least one caller has observed found=true;
  every caller that looks up before any caller has deleted (the callers of a prefix
  \<open>pre\<close> of the schedule in which no caller takes a second step) observes found=true;
  no caller that is still at its lookup when the nonce has left the store observes
  found=true.
  When the \<open>k + 1\<close> callbacks run one after another, the first observes found=true and
  none of the others does; when all look up before the first deletes, every one of
  them observes found=true.
\<close>

theorem callbacks_any_schedule:
  "(hasTwitchState ur st \<and> 0 < n \<and>
    finished (snd (interleave (twitchCallback st) schedule (ur, replicate n AtLookup))) \<longrightarrow>
      \<not> hasTwitchState (fst (interleave (twitchCallback st) schedule (ur, replicate n AtLookup))) st \<and>
      (\<exists>i<n. observedFound
                (snd (interleave (twitchCallback st) schedule (ur, replicate n AtLookup)) ! i))) \<and>
   (hasTwitchState ur st \<and> distinct pre \<longrightarrow>
      (\<forall>i\<in>set pre. i < n \<longrightarrow>
         observedFound
           (snd (interleave (twitchCallback st) (pre @ post) (ur, replicate n AtLookup)) ! i))) \<and>
   (\<not> hasTwitchState (fst (interleave (twitchCallback st) pre (ur, replicate n AtLookup))) st \<longrightarrow>
      (\<forall>i<n. snd (interleave (twitchCallback st) pre (ur, replicate n AtLookup)) ! i = AtLookup \<longrightarrow>
         \<not> observedFound
             (snd (interleave (twitchCallback st) (pre @ post) (ur, replicate n AtLookup)) ! i))) \<and>
   ((\<exists>v. hasDggState ur st = Inr (v, True)) \<and> 0 < n \<and>
    finished (snd (interleave (dggCallback st) schedule (ur, replicate n AtLookup))) \<longrightarrow>
      dggStates (fst (interleave (dggCallback st) schedule (ur, replicate n AtLookup))) st = None \<and>
      (\<exists>i<n. observedFound
                (snd (interleave (dggCallback st) schedule (ur, replicate n AtLookup)) ! i))) \<and>
   ((\<exists>v. hasDggState ur st = Inr (v, True)) \<and> distinct pre \<longrightarrow>
      (\<forall>i\<in>set pre. i < n \<longrightarrow>
         observedFound
           (snd (interleave (dggCallback st) (pre @ post) (ur, replicate n AtLookup)) ! i))) \<and>
   (dggStates (fst (interleave (dggCallback st) pre (ur, replicate n AtLookup))) st = None \<longrightarrow>
      (\<forall>i<n. snd (interleave (dggCallback st) pre (ur, replicate n AtLookup)) ! i = AtLookup \<longrightarrow>
         \<not> observedFound
             (snd (interleave (dggCallback st) (pre @ post) (ur, replicate n AtLookup)) ! i))) \<and>
   (hasTwitchState ur st \<longrightarrow>
      map observedFound
        (snd (interleave (twitchCallback st) (serial 0 (Suc k))
                (ur, replicate (Suc k) AtLookup))) =
      True # replicate k False) \<and>
   ((\<exists>v. hasDggState ur st = Inr (v, True)) \<longrightarrow>
      map observedFound
        (snd (interleave (dggCallback st) (serial 0 (Suc k))
                (ur, replicate (Suc k) AtLookup))) =
      True # replicate k False) \<and>
   (hasTwitchState ur st \<longrightarrow>
      map observedFound
        (snd (interleave (twitchCallback st) (lookupsFirst (Suc k))
                (ur, replicate (Suc k) AtLookup))) =
      replicate (Suc k) True) \<and>
   ((\<exists>v. hasDggState ur st = Inr (v, True)) \<longrightarrow>
      map observedFound
        (snd (interleave (dggCallback st) (lookupsFirst (Suc k))
                (ur, replicate (Suc k) AtLookup))) =
      replicate (Suc k) True)"
proof (intro conjI)
  note T = consumeSteps_twitch [of st]
  note D = consumeSteps_dgg [of st]
  show "hasTwitchState ur st \<and> 0 < n \<and>
    finished (snd (interleave (twitchCallback st) schedule (ur, replicate n AtLookup))) \<longrightarrow>
      \<not> hasTwitchState (fst (interleave (twitchCallback st) schedule (ur, replicate n AtLookup))) st \<and>
      (\<exists>i<n. observedFound
                (snd (interleave (twitchCallback st) schedule (ur, replicate n AtLookup)) ! i))"
    using finished_found [OF T, of ur n schedule] by blast
  show "hasTwitchState ur st \<and> distinct pre \<longrightarrow>
      (\<forall>i\<in>set pre. i < n \<longrightarrow>
         observedFound
           (snd (interleave (twitchCallback st) (pre @ post) (ur, replicate n AtLookup)) ! i))"
    using lookups_before_delete_found [OF T, of ur pre _ n post] by blast
  show "\<not> hasTwitchState (fst (interleave (twitchCallback st) pre (ur, replicate n AtLookup))) st \<longrightarrow>
      (\<forall>i<n. snd (interleave (twitchCallback st) pre (ur, replicate n AtLookup)) ! i = AtLookup \<longrightarrow>
         \<not> observedFound
             (snd (interleave (twitchCallback st) (pre @ post) (ur, replicate n AtLookup)) ! i))"
    using lookups_after_delete_not_found [OF T, of pre ur n _ post] by blast
  show "(\<exists>v. hasDggState ur st = Inr (v, True)) \<and> 0 < n \<and>
    finished (snd (interleave (dggCallback st) schedule (ur, replicate n AtLookup))) \<longrightarrow>
      dggStates (fst (interleave (dggCallback st) schedule (ur, replicate n AtLookup))) st = None \<and>
      (\<exists>i<n. observedFound
                (snd (interleave (dggCallback st) schedule (ur, replicate n AtLookup)) ! i))"
    using finished_found [OF D, of ur n schedule] by (simp add: hasDggState_found_iff)
  show "(\<exists>v. hasDggState ur st = Inr (v, True)) \<and> distinct pre \<longrightarrow>
      (\<forall>i\<in>set pre. i < n \<longrightarrow>
         observedFound
           (snd (interleave (dggCallback st) (pre @ post) (ur, replicate n AtLookup)) ! i))"
    using lookups_before_delete_found [OF D, of ur pre _ n post]
    by (simp add: hasDggState_found_iff)
  show "dggStates (fst (interleave (dggCallback st) pre (ur, replicate n AtLookup))) st = None \<longrightarrow>
      (\<forall>i<n. snd (interleave (dggCallback st) pre (ur, replicate n AtLookup)) ! i = AtLookup \<longrightarrow>
         \<not> observedFound
             (snd (interleave (dggCallback st) (pre @ post) (ur, replicate n AtLookup)) ! i))"
    using lookups_after_delete_not_found [OF D, of pre ur n _ post] by simp
qed (insert callbacks_in_turn_one_found [of ur st k], simp_all)

text \<open>
  Witness: three callbacks present the nonce \<open>''n''\<close> issued on the example server,
  under the schedule 1, 0, 1, 0, 2. Callers 1 and 0 look up before any delete and
  observe found=true; after the steps 1, 0, 1 the nonce is gone and caller 2, still at
  its lookup, does not observe found=true; in the end all have returned and the nonce
  is gone. The same for the dgg store.
\<close>

theorem callbacks_any_schedule_witness:
  "hasTwitchState (fst (addTwitchState exampleServer ''n'')) ''n'' \<and>
   finished
     (snd (interleave (twitchCallback ''n'') [1, 0, 1, 0, 2]
             (fst (addTwitchState exampleServer ''n''), replicate 3 AtLookup))) \<and>
   map observedFound
     (snd (interleave (twitchCallback ''n'') [1, 0, 1, 0, 2]
             (fst (addTwitchState exampleServer ''n''), replicate 3 AtLookup))) =
   [True, True, False] \<and>
   \<not> hasTwitchState
       (fst (interleave (twitchCallback ''n'') [1, 0, 1, 0, 2]
               (fst (addTwitchState exampleServer ''n''), replicate 3 AtLookup))) ''n'' \<and>
   (\<exists>v. hasDggState (fst (addDggState exampleServer ''n'' ''v'' 0)) ''n'' = Inr (v, True)) \<and>
   finished
     (snd (interleave (dggCallback ''n'') [1, 0, 1, 0, 2]
             (fst (addDggState exampleServer ''n'' ''v'' 0), replicate 3 AtLookup))) \<and>
   map observedFound
     (snd (interleave (dggCallback ''n'') [1, 0, 1, 0, 2]
             (fst (addDggState exampleServer ''n'' ''v'' 0), replicate 3 AtLookup))) =
   [True, True, False] \<and>
   dggStates
     (fst (interleave (dggCallback ''n'') [1, 0, 1, 0, 2]
             (fst (addDggState exampleServer ''n'' ''v'' 0), replicate 3 AtLookup))) ''n'' = None \<and>
   \<not> hasTwitchState
       (fst (interleave (twitchCallback ''n'') [1, 0, 1]
               (fst (addTwitchState exampleServer ''n''), replicate 3 AtLookup))) ''n'' \<and>
   snd (interleave (twitchCallback ''n'') [1, 0, 1]
          (fst (addTwitchState exampleServer ''n''), replicate 3 AtLookup)) ! 2 = AtLookup \<and>
   \<not> observedFound
       (snd (interleave (twitchCallback ''n'') ([1, 0, 1] @ [0, 2])
               (fst (addTwitchState exampleServer ''n''), replicate 3 AtLookup)) ! 2) \<and>
   dggStates
     (fst (interleave (dggCallback ''n'') [1, 0, 1]
             (fst (addDggState exampleServer ''n'' ''v'' 0), replicate 3 AtLookup))) ''n'' = None \<and>
   snd (interleave (dggCallback ''n'') [1, 0, 1]
          (fst (addDggState exampleServer ''n'' ''v'' 0), replicate 3 AtLookup)) ! 2 = AtLookup \<and>
   \<not> observedFound
       (snd (interleave (dggCallback ''n'') ([1, 0, 1] @ [0, 2])
               (fst (addDggState exampleServer ''n'' ''v'' 0), replicate 3 AtLookup)) ! 2) \<and>
   map observedFound
     (snd (interleave (twitchCallback ''n'') (serial 0 3)
             (fst (addTwitchState exampleServer ''n''), replicate 3 AtLookup))) =
   [True, False, False] \<and>
   map observedFound
     (snd (interleave (dggCallback ''n'') (lookupsFirst 3)
             (fst (addDggState exampleServer ''n'' ''v'' 0), replicate 3 AtLookup))) =
   [True, True, True]"
  using callbacks_any_schedule
      [of "fst (addTwitchState exampleServer ''n'')" "''n''" 3 "[1, 0, 1, 0, 2]" "[1, 0]"
          "[1, 0, 2]" "Suc (Suc 0)"]
    callbacks_any_schedule
      [of "fst (addDggState exampleServer ''n'' ''v'' 0)" "''n''" 3 "[1, 0, 1, 0, 2]" "[1, 0]"
          "[1, 0, 2]" "Suc (Suc 0)"]
    callbacks_any_schedule
      [of "fst (addTwitchState exampleServer ''n'')" "''n''" 3 "[1, 0, 1, 0, 2]" "[1, 0, 1]"
          "[0, 2]" "Suc (Suc 0)"]
    callbacks_any_schedule
      [of "fst (addDggState exampleServer ''n'' ''v'' 0)" "''n''" 3 "[1, 0, 1, 0, 2]" "[1, 0, 1]"
          "[0, 2]" "Suc (Suc 0)"]
  by (simp add: hasTwitchState_def addTwitchState_def hasDggState_def addDggState_def
        numeral_3_eq_3 twitchCallback_def dggCallback_def deleteTwitchState_def
        deleteDggState_def finished_def observedFound_def exampleServer_def NewUnRustleLogs_def)

end
